theory Spec2Isabelle
  imports Main
begin

section \<open>Strings of the Go standard library\<close>

text \<open>
  A Go string is a sequence of bytes, and \<open>len\<close> counts bytes; it is modelled as
  \<^typ>\<open>string\<close> (a list of 8-bit characters). The functions below are the ones of
  package \<open>strings\<close> and \<open>path/filepath\<close> that the build driver calls, written out from
  their documented behaviour on a Unix host (path separator \<open>/\<close>, no volume names).
\<close>

definition HasPrefix :: "string \<Rightarrow> string \<Rightarrow> bool" where
  "HasPrefix s p = (length p \<le> length s \<and> take (length p) s = p)"

definition HasSuffix :: "string \<Rightarrow> string \<Rightarrow> bool" where
  "HasSuffix s suf = (length suf \<le> length s \<and> drop (length s - length suf) s = suf)"

definition TrimPrefix :: "string \<Rightarrow> string \<Rightarrow> string" where
  "TrimPrefix s p = (if HasPrefix s p then drop (length p) s else s)"

definition TrimSuffix :: "string \<Rightarrow> string \<Rightarrow> string" where
  "TrimSuffix s suf = (if HasSuffix s suf then take (length s - length suf) s else s)"

text \<open>
  \<open>strings.TrimSpace\<close> removes leading and trailing white space as Unicode defines it
  (\<open>unicode.IsSpace\<close>). On the bytes of a string these are the six ASCII characters
  tab, line feed, vertical tab, form feed, carriage return and space, and the UTF-8
  encodings of U+0085, U+00A0, U+1680, U+2000 to U+200A, U+2028, U+2029, U+202F, U+205F
  and U+3000. No encoding in the list is a prefix or a suffix of another one.
\<close>

definition spaceRunes :: "string list" where
  "spaceRunes =
     [[CHR 0x09], [CHR 0x0A], [CHR 0x0B], [CHR 0x0C], [CHR 0x0D], [CHR 0x20],
      [CHR 0xC2, CHR 0x85], [CHR 0xC2, CHR 0xA0],
      [CHR 0xE1, CHR 0x9A, CHR 0x80],
      [CHR 0xE2, CHR 0x80, CHR 0x80], [CHR 0xE2, CHR 0x80, CHR 0x81],
      [CHR 0xE2, CHR 0x80, CHR 0x82], [CHR 0xE2, CHR 0x80, CHR 0x83],
      [CHR 0xE2, CHR 0x80, CHR 0x84], [CHR 0xE2, CHR 0x80, CHR 0x85],
      [CHR 0xE2, CHR 0x80, CHR 0x86], [CHR 0xE2, CHR 0x80, CHR 0x87],
      [CHR 0xE2, CHR 0x80, CHR 0x88], [CHR 0xE2, CHR 0x80, CHR 0x89],
      [CHR 0xE2, CHR 0x80, CHR 0x8A],
      [CHR 0xE2, CHR 0x80, CHR 0xA8], [CHR 0xE2, CHR 0x80, CHR 0xA9],
      [CHR 0xE2, CHR 0x80, CHR 0xAF],
      [CHR 0xE2, CHR 0x81, CHR 0x9F],
      [CHR 0xE3, CHR 0x80, CHR 0x80]]"

text \<open>The width in bytes of the white-space rune a string starts (ends) with, 0 if none.\<close>

definition leadingSpace :: "string \<Rightarrow> nat" where
  "leadingSpace s = (case filter (HasPrefix s) spaceRunes of [] \<Rightarrow> 0 | t # _ \<Rightarrow> length t)"

definition trailingSpace :: "string \<Rightarrow> nat" where
  "trailingSpace s = (case filter (HasSuffix s) spaceRunes of [] \<Rightarrow> 0 | t # _ \<Rightarrow> length t)"

lemma spaceRunes_nonempty: "t \<in> set spaceRunes \<Longrightarrow> t \<noteq> []"
  by (auto simp: spaceRunes_def)

lemma leadingSpace_pos: "leadingSpace s \<noteq> 0 \<Longrightarrow> s \<noteq> []"
proof -
  assume a: "leadingSpace s \<noteq> 0"
  then obtain t ts where f: "filter (HasPrefix s) spaceRunes = t # ts"
    by (auto simp: leadingSpace_def split: list.splits)
  then have "t \<in> set (filter (HasPrefix s) spaceRunes)" by simp
  then have "t \<in> set spaceRunes" and "HasPrefix s t" by auto
  then show ?thesis using spaceRunes_nonempty [of t] by (auto simp: HasPrefix_def)
qed

lemma trailingSpace_pos: "trailingSpace s \<noteq> 0 \<Longrightarrow> s \<noteq> []"
proof -
  assume a: "trailingSpace s \<noteq> 0"
  then obtain t ts where f: "filter (HasSuffix s) spaceRunes = t # ts"
    by (auto simp: trailingSpace_def split: list.splits)
  then have "t \<in> set (filter (HasSuffix s) spaceRunes)" by simp
  then have "t \<in> set spaceRunes" and "HasSuffix s t" by auto
  then show ?thesis using spaceRunes_nonempty [of t] by (auto simp: HasSuffix_def)
qed

function TrimLeftSpace :: "string \<Rightarrow> string" where
  "TrimLeftSpace s =
     (if leadingSpace s = 0 then s else TrimLeftSpace (drop (leadingSpace s) s))"
  by pat_completeness auto
termination
proof (relation "measure length")
  show "wf (measure length)" by simp
next
  fix s :: string
  assume "leadingSpace s \<noteq> 0"
  then show "(drop (leadingSpace s) s, s) \<in> measure length"
    using leadingSpace_pos [of s] by simp
qed

function TrimRightSpace :: "string \<Rightarrow> string" where
  "TrimRightSpace s =
     (if trailingSpace s = 0 then s
      else TrimRightSpace (take (length s - trailingSpace s) s))"
  by pat_completeness auto
termination
proof (relation "measure length")
  show "wf (measure length)" by simp
next
  fix s :: string
  assume "trailingSpace s \<noteq> 0"
  then show "(take (length s - trailingSpace s) s, s) \<in> measure length"
    using trailingSpace_pos [of s] by simp
qed

definition TrimSpace :: "string \<Rightarrow> string" where
  "TrimSpace s = TrimRightSpace (TrimLeftSpace s)"

text \<open>
  \<open>strings.Split\<close> for a separator of one byte: the pieces between the separators; one
  piece for the empty string. \<open>strings.Join\<close> puts the separator between the pieces.
\<close>

fun Split :: "string \<Rightarrow> char \<Rightarrow> string list" where
  "Split [] sep = [[]]"
| "Split (c # cs) sep =
     (if c = sep then [] # Split cs sep
      else (case Split cs sep of [] \<Rightarrow> [[c]] | l # ls \<Rightarrow> (c # l) # ls))"

fun Join :: "string list \<Rightarrow> string \<Rightarrow> string" where
  "Join [] sep = []"
| "Join [a] sep = a"
| "Join (a # b # bs) sep = a @ sep @ Join (b # bs) sep"

text \<open>
  \<open>filepath.Base\<close>: the last element of the path. Trailing slashes are removed first;
  the empty path gives \<open>.\<close> and a path of slashes only gives \<open>/\<close>.
\<close>

definition Base :: "string \<Rightarrow> string" where
  "Base path =
     (if path = [] then ''.''
      else let p = rev (dropWhile (\<lambda>c. c = CHR ''/'') (rev path));
               e = rev (takeWhile (\<lambda>c. c \<noteq> CHR ''/'') (rev p))
           in if e = [] then ''/'' else e)"

text \<open>
  \<open>filepath.Clean\<close>: the shortest path that names the same file by lexical processing.
  Empty elements and \<open>.\<close> elements go; a \<open>..\<close> element removes the element before it,
  is dropped at the root, and stays at the start of a path that is not rooted. The result
  of the empty path, and of a path that is not rooted and of which nothing stays, is \<open>.\<close>.
  \<open>cleanElement\<close> takes the elements kept so far, the newest first.
\<close>

definition cleanElement :: "bool \<Rightarrow> string list \<Rightarrow> string \<Rightarrow> string list" where
  "cleanElement rooted st el =
     (if el = [] \<or> el = ''.'' then st
      else if el = ''..'' then
        (case st of
           [] \<Rightarrow> if rooted then [] else [''..'']
         | e # rest \<Rightarrow> if e = ''..'' then ''..'' # st else rest)
      else el # st)"

definition Clean :: "string \<Rightarrow> string" where
  "Clean path =
     (if path = [] then ''.''
      else let rooted = (hd path = CHR ''/'');
               body = Join (rev (foldl (cleanElement rooted) [] (Split path (CHR ''/'')))) ''/''
           in if rooted then CHR ''/'' # body else if body = [] then ''.'' else body)"

text \<open>
  \<open>filepath.Dir\<close>: \<open>Clean\<close> of the path up to and including its last slash.
\<close>

definition Dir :: "string \<Rightarrow> string" where
  "Dir path = Clean (rev (dropWhile (\<lambda>c. c \<noteq> CHR ''/'') (rev path)))"

text \<open>
  \<open>fmt.Sprintf("%x", b)\<close> for a byte slice: two lower-case hexadecimal digits for each byte.
\<close>

definition hexDigit :: "nat \<Rightarrow> char" where
  "hexDigit n = ''0123456789abcdef'' ! (n mod 16)"

definition hexByte :: "char \<Rightarrow> string" where
  "hexByte c = [hexDigit ((of_char c :: nat) div 16), hexDigit ((of_char c :: nat) mod 16)]"

definition Sprintf_x :: "string \<Rightarrow> string" where
  "Sprintf_x b = concat (map hexByte b)"

section \<open>Adding commands to a runlist (runlist.go)\<close>

text \<open>
  Modelled from the spec: the structs \<open>cmd.ShellCommand\<close> and \<open>cmd.FileCommand\<close> and
  \<open>utils.MustRenderTemplate\<close> are outside the sources at hand. A shell command has the
  template-bearing field \<open>Command\<close>, a file command \<open>Path\<close> and \<open>Content\<close>; commands
  are added as references to mutable objects, and their methods have pointer receivers, so
  that a struct passed by value is no \<open>cmd.Command\<close> (the tests of \<open>Add\<close> expect the
  panic). Rendering a template either fails or gives the expanded text;
  \<open>MustRenderTemplate\<close> panics where rendering fails.
\<close>

record ShellCommand =
  Command :: string

record FileCommand =
  Path :: string
  Content :: string

text \<open>
  The dynamic type of the argument of \<open>Add\<close>, an \<open>interface{}\<close>: a pointer to a shell or
  file command (an address of the store below; an address the store does not hold is the
  nil pointer), a value of another type that implements \<open>cmd.Command\<close>, a string, a shell
  or file command struct passed by value, or a value of any other type, given by the name
  \<open>%T\<close> prints.
\<close>

datatype 'c goValue =
    ShellCommandPtr nat
  | FileCommandPtr nat
  | OtherCommand 'c
  | StringVal string
  | ShellCommandVal ShellCommand
  | FileCommandVal FileCommand
  | OtherVal string

datatype panic =
    NilDereference
  | RenderFailed string
  | NotSupported string

text \<open>
  The runlist with the objects its pointers refer to: \<open>shells\<close> and \<open>files\<close> hold the
  commands allocated so far, \<open>nextAddr\<close> is the next address to allocate.
\<close>

record ('c, 'p) Runlist =
  commands :: "'c goValue list"
  pkg :: 'p
  name :: string
  shells :: "nat \<rightharpoonup> ShellCommand"
  files :: "nat \<rightharpoonup> FileCommand"
  nextAddr :: nat

definition typeName :: "'c goValue \<Rightarrow> string" where
  "typeName v =
     (case v of
        ShellCommandPtr a \<Rightarrow> ''*cmd.ShellCommand''
      | FileCommandPtr a \<Rightarrow> ''*cmd.FileCommand''
      | OtherCommand c \<Rightarrow> ''cmd.Command''
      | StringVal s \<Rightarrow> ''string''
      | ShellCommandVal sc \<Rightarrow> ''cmd.ShellCommand''
      | FileCommandVal fc \<Rightarrow> ''cmd.FileCommand''
      | OtherVal n \<Rightarrow> n)"

definition isString :: "'c goValue \<Rightarrow> bool" where
  "isString v = (case v of StringVal s \<Rightarrow> True | _ \<Rightarrow> False)"

function Add ::
  "(string \<Rightarrow> 'p \<Rightarrow> string + string) \<Rightarrow> ('c, 'p) Runlist \<Rightarrow> 'c goValue \<Rightarrow>
     panic + ('c, 'p) Runlist" where
  "Add render rl (ShellCommandPtr a) =
     (case shells rl a of
        None \<Rightarrow> Inl NilDereference
      | Some t \<Rightarrow>
          (case render (Command t) (pkg rl) of
             Inl e \<Rightarrow> Inl (RenderFailed e)
           | Inr s \<Rightarrow>
               Inr (rl\<lparr>shells := (shells rl)(a \<mapsto> t\<lparr>Command := s\<rparr>),
                       commands := commands rl @ [ShellCommandPtr a]\<rparr>)))"
| "Add render rl (FileCommandPtr a) =
     (case files rl a of
        None \<Rightarrow> Inl NilDereference
      | Some t \<Rightarrow>
          (case render (Content t) (pkg rl) of
             Inl e \<Rightarrow> Inl (RenderFailed e)
           | Inr s \<Rightarrow>
               Inr (rl\<lparr>files := (files rl)(a \<mapsto> t\<lparr>Content := s\<rparr>),
                       commands := commands rl @ [FileCommandPtr a]\<rparr>)))"
| "Add render rl (OtherCommand c) = Inr (rl\<lparr>commands := commands rl @ [OtherCommand c]\<rparr>)"
| "Add render rl (StringVal s) =
     Add render
       (rl\<lparr>shells := (shells rl)(nextAddr rl \<mapsto> \<lparr>Command = s\<rparr>),
           nextAddr := Suc (nextAddr rl)\<rparr>)
       (ShellCommandPtr (nextAddr rl))"
| "Add render rl (ShellCommandVal sc) =
     Inl (NotSupported (typeName (ShellCommandVal sc :: 'c goValue)))"
| "Add render rl (FileCommandVal fc) =
     Inl (NotSupported (typeName (FileCommandVal fc :: 'c goValue)))"
| "Add render rl (OtherVal n) = Inl (NotSupported (typeName (OtherVal n :: 'c goValue)))"
  by pat_completeness auto
termination
  by (relation "measure (\<lambda>(render, rl, v). if isString v then 1 else 0)")
    (auto simp: isString_def)

section \<open>Data model\<close>

text \<open>
  Go errors are values built by \<open>fmt.Errorf\<close> at the places below, or handed in from
  outside the build driver (the target, the template validation, the remote task runner).
  The datatype has one constructor for each place; the arguments are the values the message
  is formatted from.
\<close>

datatype error =
    External string
  | UserNotSet
  | InitiateUserFailed string error string string
  | CacheKeyEmpty
  | CreateChecksumDirFailed string error
  | ChecksumReadFailed error string string
  | InvalidChecksum string string
  | ChecksumTreeError error

text \<open>
  A \<open>cmd.Command\<close> answers \<open>Shell()\<close>; a command may also answer \<open>Checksum()\<close>, which
  \<open>commandChecksum\<close> probes for by a type assertion. \<open>Checksum = None\<close> is a command
  without that method.
\<close>

record command =
  Shell :: string
  Checksum :: "string option"

text \<open>
  The runner struct, as the two places that build it fill it in. The field \<open>build\<close> is
  passed beside the record. Times are natural numbers, 0 the zero time.
\<close>

record remoteTaskRunner =
  cmd :: string
  command :: command
  dir :: string
  taskName :: string
  taskStarted :: nat

text \<open>
  Modelled from the spec: the types \<open>commandWrapper\<close>, \<open>task\<close> and \<open>packageImpl\<close> are
  declared outside the sources at hand. The driver reads and writes the fields
  \<open>command\<close>, \<open>cached\<close>, \<open>name\<close>, \<open>commands\<close>, \<open>started\<close> and \<open>tasks\<close>; the
  spec's CommandEntry is \<open>(command, cached, checksum, logMessage)\<close>, and the results of
  the wrapper's \<open>Checksum()\<close> and \<open>LogMsg()\<close> are the fields \<open>checksum\<close> and \<open>logMsg\<close>.
  The package's back reference to its template is left out.
\<close>

record commandWrapper =
  command :: command
  cached :: bool
  checksum :: string
  logMsg :: string

record task =
  name :: string
  commands :: "commandWrapper list"
  started :: nat

record packageImpl =
  tasks :: "task list"

text \<open>
  A target over a world \<open>'w\<close> (the state of the remote host and of the connection).
  \<open>Command\<close> creates an \<open>ExecCommand\<close> for a raw shell string, or fails; \<open>Exec\<close> is
  \<open>Run()\<close> of the command created for that string: its error, what it wrote to standard
  output and to standard error, and the new world. \<open>String = None\<close> is a target that is
  no \<open>fmt.Stringer\<close>.
\<close>

record 'w Target =
  User :: string
  Command :: "string \<Rightarrow> 'w \<Rightarrow> error option"
  Exec :: "string \<Rightarrow> 'w \<Rightarrow> (error option \<times> string \<times> string) \<times> 'w"
  Reset :: "'w \<Rightarrow> error option \<times> 'w"
  String :: "string option"

text \<open>
  A template is user code: \<open>validateTemplate\<close> is the outcome of validating it and
  \<open>Render\<close> fills the package it is given.
\<close>

record Template =
  validateTemplate :: "error option"
  Render :: "packageImpl \<Rightarrow> packageImpl"

record 'w Build =
  Target :: "'w Target"
  Template :: Template
  Env :: "string list"

text \<open>
  What the driver takes from outside the sources at hand: the two constants
  \<open>ukCACHEDIR\<close> and \<open>ukGROUP\<close> (neither contains a formatting verb), and beside them
  the SHA-256 digest of \<open>crypto/sha256\<close>, the clock, and \<open>run()\<close> of the remote task
  runner.
\<close>

record constants =
  ukCACHEDIR :: string
  ukGROUP :: string

record 'w extern = constants +
  sha256_Sum :: "string \<Rightarrow> string"
  time_Now :: "'w \<Rightarrow> nat"
  runner_run :: "'w Build \<Rightarrow> remoteTaskRunner \<Rightarrow> 'w \<Rightarrow> error option \<times> 'w"

text \<open>
  Modelled from the spec: the message type of package \<open>pubsub\<close> and the helper
  \<open>message(key, hostname, taskName)\<close> are outside the sources at hand. Each message
  carries the hostname, the task name, the command checksum, the log label, the execution
  status and an optional error; the topics are \<open>runlists.provision\<close> and
  \<open>runlists.provision.task\<close>.
\<close>

datatype msgKey = MessageRunlistsProvision | MessageRunlistsProvisionTask

datatype execStatus = StatusUnset | StatusCached | StatusExecStart | StatusExecFinished

record message =
  Key :: msgKey
  Hostname :: string
  TaskName :: string
  TaskChecksum :: string
  Message :: string
  ExecStatus :: execStatus
  Error :: "error option"

definition message :: "msgKey \<Rightarrow> string \<Rightarrow> string \<Rightarrow> message" where
  "message k h t =
     \<lparr>Key = k, Hostname = h, TaskName = t, TaskChecksum = [], Message = [],
      ExecStatus = StatusUnset, Error = None\<rparr>"

text \<open>
  What a build does to the outside, in order: a raw string handed to \<open>Target.Command\<close>,
  a created command run (with its error), the transport reset, a remote task runner run,
  a message published.
\<close>

datatype event =
    CommandEv string
  | RunEv string "error option"
  | ResetEv "error option"
  | RunnerEv remoteTaskRunner "error option"
  | PublishEv message string
  | PublishErrorEv message error

section \<open>The checksum of a command (utils.go)\<close>

text \<open>
  \<open>commandChecksum\<close>: the command's own \<open>Checksum()\<close> if it has one, else the digest of
  the bytes of \<open>Shell()\<close> printed with \<open>%x\<close>. The error branch of the source is the
  error of \<open>Write\<close> on the hash, which a \<open>hash.Hash\<close> never returns.
\<close>

definition commandChecksum :: "'w extern \<Rightarrow> command \<Rightarrow> error + string" where
  "commandChecksum x c =
     (case Checksum c of
        Some s \<Rightarrow> Inr s
      | None \<Rightarrow> Inr (Sprintf_x (sha256_Sum x (Shell c))))"

text \<open>
  \<open>executeCommand\<close>: the loop puts each entry of \<open>Env\<close>, followed by a space, in front of
  the shell string built so far. The runner it builds has no start time.
\<close>

definition executeCommand_sCmd :: "command \<Rightarrow> 'w Build \<Rightarrow> string" where
  "executeCommand_sCmd c build = foldl (\<lambda>sCmd env. env @ '' '' @ sCmd) (Shell c) (Env build)"

definition executeCommand ::
  "'w extern \<Rightarrow> command \<Rightarrow> 'w Build \<Rightarrow> string \<Rightarrow> string \<Rightarrow> 'w \<Rightarrow> error option \<times> 'w \<times> event list" where
  "executeCommand x c build checksumDir tName w =
     (let r = \<lparr>cmd = executeCommand_sCmd c build, remoteTaskRunner.command = c,
               dir = checksumDir, taskName = tName, taskStarted = 0\<rparr>
      in case runner_run x build r w of (e, w') \<Rightarrow> (e, w', [RunnerEv r e]))"

section \<open>The build driver\<close>

definition hostname :: "'w Build \<Rightarrow> string" where
  "hostname build = (case String (Target build) of Some s \<Rightarrow> s | None \<Rightarrow> ''MISSING'')"

definition prepareCommand :: "'w Build \<Rightarrow> string \<Rightarrow> 'w \<Rightarrow> (error + string) \<times> event list" where
  "prepareCommand build rawCmd w =
     (let sudo = (if User (Target build) \<noteq> ''root'' then ''sudo '' else [])
      in (case Command (Target build) (sudo @ rawCmd) w of
            Some e \<Rightarrow> Inl e
          | None \<Rightarrow> Inr (sudo @ rawCmd),
          [CommandEv (sudo @ rawCmd)]))"

definition prepareInternalCommand ::
  "'w Build \<Rightarrow> string \<Rightarrow> 'w \<Rightarrow> (error + string) \<times> event list" where
  "prepareInternalCommand build rawCmd w =
     prepareCommand build
       (''sh -x -e <<'' @ [CHR 0x22] @ ''EOC'' @ [CHR 0x22, CHR 0x0A] @ rawCmd @
        [CHR 0x0A] @ ''EOC'' @ [CHR 0x0A]) w"

subsection \<open>prepareTarget\<close>

text \<open>The check and the four repair commands, as \<open>fmt.Sprintf\<close> fills them in.\<close>

definition prepareTarget_rawCmd :: "'z constants_scheme \<Rightarrow> 'w Build \<Rightarrow> string" where
  "prepareTarget_rawCmd x build =
     ''{ grep '' @ [CHR 0x22] @ ''^'' @ ukGROUP x @ '':'' @ [CHR 0x22] @
     '' /etc/group | grep '' @ User (Target build) @ ''; } && [ -d '' @ ukCACHEDIR x @
     '' ] && [ -f '' @ ukCACHEDIR x @ ''/.v2 ]''"

definition prepareTarget_cmds :: "'z constants_scheme \<Rightarrow> 'w Build \<Rightarrow> string list" where
  "prepareTarget_cmds x build =
     [''{ grep -e '^'' @ ukGROUP x @ '':' /etc/group > /dev/null || { groupadd '' @
        ukGROUP x @ ''; }; }'',
      ''{ [ -d '' @ ukCACHEDIR x @ '' ] || { mkdir -p -m 2775 '' @ ukCACHEDIR x @
        '' && chgrp '' @ ukGROUP x @ '' '' @ ukCACHEDIR x @ ''; }; }'',
      ''usermod -a -G '' @ ukGROUP x @ '' '' @ User (Target build),
      ''[ -f '' @ ukCACHEDIR x @ ''/.v2 ] || { export DATE=$(date '' @ [CHR 0x22] @
        ''+%Y%m%d_%H%M%S'' @ [CHR 0x22] @ '') && ls '' @ ukCACHEDIR x @
        '' | while read dir; do ls -t '' @ ukCACHEDIR x @ ''/$dir/*.done | tac > '' @
        ukCACHEDIR x @ ''/$dir/$DATE.run; done && touch '' @ ukCACHEDIR x @ ''/.v2;  } '']"

definition prepareTarget ::
  "'z constants_scheme \<Rightarrow> 'w Build \<Rightarrow> 'w \<Rightarrow> error option \<times> 'w \<times> event list" where
  "prepareTarget x build w =
     (if User (Target build) = [] then (Some UserNotSet, w, [])
      else
        (case prepareInternalCommand build (prepareTarget_rawCmd x build) w of
           (Inl e, evs) \<Rightarrow> (Some e, w, evs)
         | (Inr c, evs) \<Rightarrow>
             (case Exec (Target build) c w of
                ((None, out, err), w1) \<Rightarrow> (None, w1, evs @ [RunEv c None])
              | ((Some e0, out, err), w1) \<Rightarrow>
                  (case prepareInternalCommand build
                          (Join (prepareTarget_cmds x build) '' && '') w1 of
                     (Inl e, evs2) \<Rightarrow> (Some e, w1, evs @ [RunEv c (Some e0)] @ evs2)
                   | (Inr c2, evs2) \<Rightarrow>
                       (case Exec (Target build) c2 w1 of
                          ((Some e, out2, err2), w2) \<Rightarrow>
                            (Some (InitiateUserFailed (User (Target build)) e out2 err2), w2,
                             evs @ [RunEv c (Some e0)] @ evs2 @ [RunEv c2 (Some e)])
                        | ((None, out2, err2), w2) \<Rightarrow>
                            (case Reset (Target build) w2 of
                               (r, w3) \<Rightarrow>
                                 (r, w3,
                                  evs @ [RunEv c (Some e0)] @ evs2 @
                                  [RunEv c2 None, ResetEv r])))))))"

subsection \<open>buildChecksumTree\<close>

type_synonym checksumTree = "string \<rightharpoonup> string list"

definition buildChecksumTree_rawCmd :: "'z constants_scheme \<Rightarrow> string" where
  "buildChecksumTree_rawCmd x =
     ''[ -d '' @ ukCACHEDIR x @ '' ] && { ls '' @ ukCACHEDIR x @
     '' | while read dir; do ls -t '' @ ukCACHEDIR x @
     ''/$dir/*.run | head -n1 | xargs cat; done; }''"

text \<open>
  The loop over the lines of the output. A key that is not in a Go map reads as the nil
  slice, and \<open>append\<close> to it gives the one-element slice.
\<close>

fun parseLines :: "'z constants_scheme \<Rightarrow> string list \<Rightarrow> checksumTree \<Rightarrow> error + checksumTree" where
  "parseLines x [] ct = Inr ct"
| "parseLines x (l # ls) ct =
     (if TrimSpace l = [] \<or> \<not> HasSuffix (TrimSpace l) ''.done'' then parseLines x ls ct
      else
        (let pkgname = Dir (TrimPrefix (TrimSpace l) (ukCACHEDIR x @ ''/''));
             checksum = TrimSuffix (Base (TrimSpace l)) ''.done''
         in if length checksum \<noteq> 64 then Inl (InvalidChecksum checksum pkgname)
            else parseLines x ls
                   (ct(pkgname \<mapsto>
                      (case ct pkgname of None \<Rightarrow> [] | Some cs \<Rightarrow> cs) @ [checksum]))))"

definition buildChecksumTree ::
  "'z constants_scheme \<Rightarrow> 'w Build \<Rightarrow> 'w \<Rightarrow> (error + checksumTree) \<times> 'w \<times> event list" where
  "buildChecksumTree x build w =
     (case prepareInternalCommand build (buildChecksumTree_rawCmd x) w of
        (Inl e, evs) \<Rightarrow> (Inl e, w, evs)
      | (Inr c, evs) \<Rightarrow>
          (case Exec (Target build) c w of
             ((Some e, out, err), w1) \<Rightarrow>
               (Inl (ChecksumReadFailed e out err), w1, evs @ [RunEv c (Some e)])
           | ((None, out, err), w1) \<Rightarrow>
               (parseLines x (Split out (CHR 0x0A)) Map.empty, w1, evs @ [RunEv c None])))"

subsection \<open>prepareTask\<close>

text \<open>
  The loop that marks the commands that need not run, from position \<open>i\<close> on. In Go a
  \<open>break\<close> in a \<open>switch\<close> leaves the \<open>switch\<close>, not the \<open>for\<close> around it: after a
  command that does not match, the loop goes on with the next command.
\<close>

fun markCached ::
  "'w extern \<Rightarrow> string list \<Rightarrow> nat \<Rightarrow> commandWrapper list \<Rightarrow> error + commandWrapper list" where
  "markCached x checksumList i [] = Inr []"
| "markCached x checksumList i (c # cs) =
     (case commandChecksum x (commandWrapper.command c) of
        Inl e \<Rightarrow> Inl e
      | Inr checksum' \<Rightarrow>
          (case markCached x checksumList (Suc i) cs of
             Inl e \<Rightarrow> Inl e
           | Inr cs' \<Rightarrow>
               Inr ((if length checksumList \<le> i \<or> checksum' \<noteq> checksumList ! i then c
                     else c\<lparr>cached := True\<rparr>) # cs')))"

definition prepareTask ::
  "'w extern \<Rightarrow> 'w Build \<Rightarrow> task \<Rightarrow> checksumTree \<Rightarrow> 'w \<Rightarrow> (error + task) \<times> 'w \<times> event list" where
  "prepareTask x build tsk ct w =
     (if name tsk = [] then (Inl CacheKeyEmpty, w, [])
      else
        (case ct (name tsk) of
           Some checksumList \<Rightarrow>
             (map_sum id (\<lambda>cs. tsk\<lparr>commands := cs\<rparr>)
                (markCached x checksumList 0 (commands tsk)), w, [])
         | None \<Rightarrow>
             (case prepareInternalCommand build
                     (''mkdir -m2775 -p '' @ ukCACHEDIR x @ ''/'' @ name tsk) w of
                (Inl e, evs) \<Rightarrow> (Inl e, w, evs)
              | (Inr c, evs) \<Rightarrow>
                  (case Exec (Target build) c w of
                     ((Some e, out, err), w1) \<Rightarrow>
                       (Inl (CreateChecksumDirFailed err e), w1, evs @ [RunEv c (Some e)])
                   | ((None, out, err), w1) \<Rightarrow>
                       (map_sum id (\<lambda>cs. tsk\<lparr>commands := cs\<rparr>)
                          (markCached x [] 0 (commands tsk)), w1, evs @ [RunEv c None])))))"

subsection \<open>prepareBuild\<close>

definition renderTemplate :: "Template \<Rightarrow> error + packageImpl" where
  "renderTemplate builder =
     (case validateTemplate builder of
        Some e \<Rightarrow> Inl e
      | None \<Rightarrow> Inr (Render builder \<lparr>tasks = []\<rparr>))"

fun prepareTasks ::
  "'w extern \<Rightarrow> 'w Build \<Rightarrow> task list \<Rightarrow> checksumTree \<Rightarrow> 'w \<Rightarrow>
     (error + task list) \<times> 'w \<times> event list" where
  "prepareTasks x build [] ct w = (Inr [], w, [])"
| "prepareTasks x build (t # ts) ct w =
     (case prepareTask x build t ct w of
        (Inl e, w1, evs) \<Rightarrow> (Inl e, w1, evs)
      | (Inr t', w1, evs) \<Rightarrow>
          (case prepareTasks x build ts ct w1 of
             (Inl e, w2, evs2) \<Rightarrow> (Inl e, w2, evs @ evs2)
           | (Inr ts', w2, evs2) \<Rightarrow> (Inr (t' # ts'), w2, evs @ evs2)))"

definition prepareBuild ::
  "'w extern \<Rightarrow> 'w Build \<Rightarrow> 'w \<Rightarrow> (error + packageImpl) \<times> 'w \<times> event list" where
  "prepareBuild x build w =
     (case renderTemplate (Template build) of
        Inl e \<Rightarrow> (Inl e, w, [])
      | Inr pk \<Rightarrow>
          (case prepareTarget x build w of
             (Some e, w1, evs1) \<Rightarrow> (Inl e, w1, evs1)
           | (None, w1, evs1) \<Rightarrow>
               (case buildChecksumTree x build w1 of
                  (Inl e, w2, evs2) \<Rightarrow> (Inl (ChecksumTreeError e), w2, evs1 @ evs2)
                | (Inr ct, w2, evs2) \<Rightarrow>
                    (case prepareTasks x build (tasks pk) ct w2 of
                       (Inl e, w3, evs3) \<Rightarrow> (Inl e, w3, evs1 @ evs2 @ evs3)
                     | (Inr ts, w3, evs3) \<Rightarrow>
                         (Inr (pk\<lparr>tasks := ts\<rparr>), w3, evs1 @ evs2 @ evs3)))))"

subsection \<open>buildTask, Run and DryRun\<close>

definition taskMessage :: "'w Build \<Rightarrow> task \<Rightarrow> commandWrapper \<Rightarrow> message" where
  "taskMessage build tsk c =
     (message MessageRunlistsProvisionTask (hostname build) (name tsk))
       \<lparr>TaskChecksum := checksum c, Message := logMsg c\<rparr>"

fun buildCommands ::
  "'w extern \<Rightarrow> 'w Build \<Rightarrow> task \<Rightarrow> commandWrapper list \<Rightarrow> 'w \<Rightarrow>
     error option \<times> 'w \<times> event list" where
  "buildCommands x build tsk [] w = (None, w, [])"
| "buildCommands x build tsk (c # cs) w =
     (if cached c then
        (case buildCommands x build tsk cs w of
           (r, w', evs) \<Rightarrow>
             (r, w',
              PublishEv ((taskMessage build tsk c)\<lparr>ExecStatus := StatusCached\<rparr>) ''finished''
              # evs))
      else
        (case runner_run x build
                \<lparr>cmd = [], remoteTaskRunner.command = commandWrapper.command c,
                 dir = ukCACHEDIR x @ ''/'' @ name tsk, taskName = name tsk,
                 taskStarted = started tsk\<rparr> w of
           (e, w1) \<Rightarrow>
             (case e of
                Some err \<Rightarrow>
                  (Some err, w1,
                   [PublishEv ((taskMessage build tsk c)\<lparr>ExecStatus := StatusExecStart\<rparr>)
                      ''started'',
                    RunnerEv
                      \<lparr>cmd = [], remoteTaskRunner.command = commandWrapper.command c,
                       dir = ukCACHEDIR x @ ''/'' @ name tsk, taskName = name tsk,
                       taskStarted = started tsk\<rparr> e,
                    PublishEv
                      ((taskMessage build tsk c)\<lparr>ExecStatus := StatusExecFinished, Error := e\<rparr>)
                      ''finished''])
              | None \<Rightarrow>
                  (case buildCommands x build tsk cs w1 of
                     (r, w', evs) \<Rightarrow>
                       (r, w',
                        [PublishEv ((taskMessage build tsk c)\<lparr>ExecStatus := StatusExecStart\<rparr>)
                           ''started'',
                         RunnerEv
                           \<lparr>cmd = [], remoteTaskRunner.command = commandWrapper.command c,
                            dir = ukCACHEDIR x @ ''/'' @ name tsk, taskName = name tsk,
                            taskStarted = started tsk\<rparr> e,
                         PublishEv
                           ((taskMessage build tsk c)
                              \<lparr>ExecStatus := StatusExecFinished, Error := e\<rparr>)
                           ''finished''] @ evs)))))"

definition buildTask ::
  "'w extern \<Rightarrow> 'w Build \<Rightarrow> task \<Rightarrow> 'w \<Rightarrow> error option \<times> 'w \<times> event list" where
  "buildTask x build tsk w =
     buildCommands x build (tsk\<lparr>started := time_Now x w\<rparr>) (commands tsk) w"

fun buildTasks ::
  "'w extern \<Rightarrow> 'w Build \<Rightarrow> task list \<Rightarrow> 'w \<Rightarrow> error option \<times> 'w \<times> event list" where
  "buildTasks x build [] w = (None, w, [])"
| "buildTasks x build (t # ts) w =
     (case buildTask x build t w of
        (Some e, w1, evs) \<Rightarrow> (Some e, w1, evs)
      | (None, w1, evs) \<Rightarrow>
          (case buildTasks x build ts w1 of (r, w2, evs2) \<Rightarrow> (r, w2, evs @ evs2)))"

definition Run :: "'w extern \<Rightarrow> 'w Build \<Rightarrow> 'w \<Rightarrow> error option \<times> 'w \<times> event list" where
  "Run x b w =
     (case prepareBuild x b w of
        (Inl e, w1, evs1) \<Rightarrow> (Some e, w1, evs1)
      | (Inr pk, w1, evs1) \<Rightarrow>
          (case buildTasks x b (tasks pk) w1 of
             (Some e, w2, evs2) \<Rightarrow>
               (Some e, w2,
                evs1 @ [PublishEv (message MessageRunlistsProvision (hostname b) []) ''started'']
                @ evs2 @ [PublishErrorEv (message MessageRunlistsProvision (hostname b) []) e])
           | (None, w2, evs2) \<Rightarrow>
               (None, w2,
                evs1 @ [PublishEv (message MessageRunlistsProvision (hostname b) []) ''started'']
                @ evs2 @
                [PublishEv (message MessageRunlistsProvision (hostname b) []) ''finished''])))"

definition dryRunCommand :: "'w Build \<Rightarrow> task \<Rightarrow> commandWrapper \<Rightarrow> event" where
  "dryRunCommand b tsk c =
     (if cached c
      then PublishEv ((taskMessage b tsk c)\<lparr>ExecStatus := StatusCached\<rparr>) ''finished''
      else PublishEv ((taskMessage b tsk c)\<lparr>ExecStatus := StatusExecStart\<rparr>) ''executed'')"

definition DryRun :: "'w extern \<Rightarrow> 'w Build \<Rightarrow> 'w \<Rightarrow> error option \<times> 'w \<times> event list" where
  "DryRun x b w =
     (case prepareBuild x b w of
        (Inl e, w1, evs1) \<Rightarrow> (Some e, w1, evs1)
      | (Inr pk, w1, evs1) \<Rightarrow>
          (None, w1,
           evs1 @ concat (map (\<lambda>tsk. map (dryRunCommand b tsk) (commands tsk)) (tasks pk))))"

section \<open>Observing a build\<close>

text \<open>
  What a trace shows: the runs of the remote task runner (task name, command, error), the
  messages published, the raw strings handed to \<open>Target.Command\<close>, and how often the
  command created for a string was run.
\<close>

fun runnerCalls :: "event list \<Rightarrow> (string \<times> command \<times> error option) list" where
  "runnerCalls [] = []"
| "runnerCalls (RunnerEv r e # evs) = (taskName r, remoteTaskRunner.command r, e) # runnerCalls evs"
| "runnerCalls (ev # evs) = runnerCalls evs"

fun published :: "event list \<Rightarrow> message list" where
  "published [] = []"
| "published (PublishEv m s # evs) = m # published evs"
| "published (PublishErrorEv m e # evs) = m # published evs"
| "published (ev # evs) = published evs"

fun sentTexts :: "event list \<Rightarrow> string list" where
  "sentTexts [] = []"
| "sentTexts (CommandEv s # evs) = s # sentTexts evs"
| "sentTexts (ev # evs) = sentTexts evs"

fun runsOf :: "string \<Rightarrow> event list \<Rightarrow> nat" where
  "runsOf s [] = 0"
| "runsOf s (RunEv s' e # evs) = (if s' = s then Suc (runsOf s evs) else runsOf s evs)"
| "runsOf s (ev # evs) = runsOf s evs"

text \<open>
  The commands a package still has to run: for each task in order, its entries in order
  that are not marked cached.
\<close>

definition pending :: "task list \<Rightarrow> (string \<times> command) list" where
  "pending ts =
     concat (map (\<lambda>t. map (\<lambda>c. (name t, commandWrapper.command c))
                          (filter (\<lambda>c. \<not> cached c) (commands t))) ts)"

definition succeeded :: "string \<times> command \<Rightarrow> string \<times> command \<times> error option" where
  "succeeded p = (fst p, snd p, None)"

text \<open>
  A list of runner calls that follows \<open>ps\<close> and stops at the first error: without an
  error every command of \<open>ps\<close> ran, once, in order; with the error \<open>e\<close> the calls are
  the commands up to one that failed with \<open>e\<close>, each of the earlier ones without error.
\<close>

definition stopsAtFirstError ::
  "(string \<times> command) list \<Rightarrow> error option \<Rightarrow> (string \<times> command \<times> error option) list \<Rightarrow> bool" where
  "stopsAtFirstError ps res calls =
     (case res of
        None \<Rightarrow> calls = map succeeded ps
      | Some e \<Rightarrow>
          (\<exists>pre p post. ps = pre @ p # post \<and>
             calls = map succeeded pre @ [(fst p, snd p, Some e)]))"

text \<open>
  A line of the checksum listing that, trimmed, is not blank and ends in \<open>.done\<close>,
  and whose base name without \<open>.done\<close> does not have 64 characters.
\<close>

definition corruptLine :: "string \<Rightarrow> bool" where
  "corruptLine l =
     (TrimSpace l \<noteq> [] \<and> HasSuffix (TrimSpace l) ''.done'' \<and>
      length (TrimSuffix (Base (TrimSpace l)) ''.done'') \<noteq> 64)"

text \<open>
  The \<open>sudo\<close> prefix of a build, the here-document around an internal command, and
  the events of the bootstrap and the diff: internal commands created and run, and resets.
\<close>

definition sudo :: "'w Build \<Rightarrow> string" where
  "sudo b = (if User (Target b) = ''root'' then [] else ''sudo '')"

definition heredoc :: "string \<Rightarrow> string" where
  "heredoc raw =
     ''sh -x -e <<'' @ [CHR 0x22] @ ''EOC'' @ [CHR 0x22, CHR 0x0A] @ raw @ [CHR 0x0A] @ ''EOC'' @
     [CHR 0x0A]"

fun internalEv :: "'w Build \<Rightarrow> event \<Rightarrow> bool" where
  "internalEv b (CommandEv s) = (\<exists>raw. s = sudo b @ heredoc raw)"
| "internalEv b (RunEv s e) = (\<exists>raw. s = sudo b @ heredoc raw)"
| "internalEv b (ResetEv e) = True"
| "internalEv b ev = False"

text \<open>
  Modelled from the spec: \<open>run()\<close> of the remote task runner is outside the sources at
  hand. Of the shell text it runs the spec says: "Build the final shell text:
  <env K=V ...> <sudo?> <command.shell()>".
\<close>

definition runner_shellText :: "'w Build \<Rightarrow> remoteTaskRunner \<Rightarrow> string" where
  "runner_shellText build r =
     concat (map (\<lambda>env. env @ '' '') (Env build)) @
     (if User (Target build) = ''root'' then [] else ''sudo '') @
     Shell (remoteTaskRunner.command r)"

section \<open>Example hosts and builds\<close>

text \<open>
  A host whose world is the number of actions done on it so far. The digest stays a
  parameter. The remote task runner fails on the command \<open>false\<close> and succeeds on every
  other one.
\<close>

definition hostConsts :: constants where
  "hostConsts = \<lparr>ukCACHEDIR = ''/var/lib/urknall'', ukGROUP = ''urknall''\<rparr>"

definition hostExtern :: "(string \<Rightarrow> string) \<Rightarrow> nat extern" where
  "hostExtern H =
     \<lparr>ukCACHEDIR = ''/var/lib/urknall'', ukGROUP = ''urknall'', sha256_Sum = H,
      time_Now = (\<lambda>w. w),
      runner_run = (\<lambda>b r w.
         (if Shell (remoteTaskRunner.command r) = ''false''
          then Some (External ''exit status 1'') else None, Suc w))\<rparr>"

text \<open>
  A target for the user \<open>ubuntu\<close> on which every command exits with 0 and prints
  \<open>out\<close>, and a template with the one task \<open>base\<close>.
\<close>

definition echoTarget :: "string \<Rightarrow> nat Target" where
  "echoTarget out =
     \<lparr>User = ''ubuntu'', Command = (\<lambda>s w. None),
      Exec = (\<lambda>s w. ((None, out, []), Suc w)),
      Reset = (\<lambda>w. (None, Suc w)), String = None\<rparr>"

definition shellEntry :: "(string \<Rightarrow> string) \<Rightarrow> string \<Rightarrow> commandWrapper" where
  "shellEntry H s =
     \<lparr>commandWrapper.command = \<lparr>Shell = s, Checksum = None\<rparr>, cached = False,
      checksum = Sprintf_x (H s), logMsg = s\<rparr>"

definition sumEntry :: "string \<Rightarrow> string \<Rightarrow> commandWrapper" where
  "sumEntry s c =
     \<lparr>commandWrapper.command = \<lparr>Shell = s, Checksum = Some c\<rparr>, cached = False,
      checksum = c, logMsg = s\<rparr>"

definition baseTemplate :: "commandWrapper list \<Rightarrow> Template" where
  "baseTemplate entries =
     \<lparr>validateTemplate = None,
      Render = (\<lambda>p. p\<lparr>tasks := tasks p @
                 [\<lparr>name = ''base'', commands = entries, started = 0\<rparr>]\<rparr>)\<rparr>"

definition exampleBuild :: "(string \<Rightarrow> string) \<Rightarrow> string \<Rightarrow> string list \<Rightarrow> nat Build" where
  "exampleBuild H out cmds =
     \<lparr>Target = echoTarget out, Template = baseTemplate (map (shellEntry H) cmds),
      Env = [''LC_ALL=C'']\<rparr>"

text \<open>
  Four checksums of 64 characters, and a build of the task \<open>base\<close> after an earlier run
  of three commands of which the second one has changed since: the target lists the
  markers of the earlier run.
\<close>

definition sumA :: string where
  "sumA = ''aaaaaaaaaaaaaaaaaaaaaaaaaaaaaaaaaaaaaaaaaaaaaaaaaaaaaaaaaaaaaaaa''"

definition sumB :: string where
  "sumB = ''bbbbbbbbbbbbbbbbbbbbbbbbbbbbbbbbbbbbbbbbbbbbbbbbbbbbbbbbbbbbbbbb''"

definition sumC :: string where
  "sumC = ''cccccccccccccccccccccccccccccccccccccccccccccccccccccccccccccccc''"

definition sumD :: string where
  "sumD = ''dddddddddddddddddddddddddddddddddddddddddddddddddddddddddddddddd''"

definition staleListing :: string where
  "staleListing =
     ''/var/lib/urknall/base/'' @ sumA @ ''.done'' @ [CHR 0x0A] @
     ''/var/lib/urknall/base/'' @ sumD @ ''.done'' @ [CHR 0x0A] @
     ''/var/lib/urknall/base/'' @ sumC @ ''.done'' @ [CHR 0x0A]"

definition staleBuild :: "nat Build" where
  "staleBuild =
     \<lparr>Target = echoTarget staleListing,
      Template = baseTemplate
        [sumEntry ''echo hello'' sumA, sumEntry ''echo middle'' sumB,
         sumEntry ''echo world'' sumC],
      Env = []\<rparr>"

text \<open>A listing with a marker whose name is too short.\<close>

definition corruptListing :: string where
  "corruptListing = ''/var/lib/urknall/base/abc.done'' @ [CHR 0x0A]"

text \<open>
  A target on which the preflight check of \<open>prepareTarget\<close> fails whenever it is run
  and every other command exits with 0.
\<close>

definition checkText :: string where
  "checkText =
     ''sudo sh -x -e <<'' @ [CHR 0x22] @ ''EOC'' @ [CHR 0x22, CHR 0x0A] @
     ''{ grep '' @ [CHR 0x22] @ ''^urknall:'' @ [CHR 0x22] @
     '' /etc/group | grep ubuntu; } && [ -d /var/lib/urknall ] && [ -f /var/lib/urknall/.v2 ]'' @
     [CHR 0x0A] @ ''EOC'' @ [CHR 0x0A]"

definition brokenTarget :: "nat Target" where
  "brokenTarget =
     \<lparr>User = ''ubuntu'', Command = (\<lambda>s w. None),
      Exec = (\<lambda>s w. ((if s = checkText then Some (External ''exit status 1'') else None, [], []),
                       Suc w)),
      Reset = (\<lambda>w. (None, Suc w)), String = None\<rparr>"

definition brokenBuild :: "nat Build" where
  "brokenBuild =
     \<lparr>Target = brokenTarget,
      Template = baseTemplate [sumEntry ''echo hello'' sumA], Env = []\<rparr>"

declare TrimLeftSpace.simps [simp del] TrimRightSpace.simps [simp del]

lemmas string_defs = TrimSpace_def TrimLeftSpace.simps TrimRightSpace.simps leadingSpace_def
  trailingSpace_def spaceRunes_def HasPrefix_def HasSuffix_def TrimSuffix_def TrimPrefix_def Base_def
  Dir_def Clean_def cleanElement_def

lemmas driver_defs = Run_def DryRun_def prepareBuild_def renderTemplate_def prepareTarget_def
  prepareInternalCommand_def prepareCommand_def buildChecksumTree_def prepareTask_def
  commandChecksum_def buildTask_def taskMessage_def message_def hostname_def
  prepareTarget_rawCmd_def prepareTarget_cmds_def buildChecksumTree_rawCmd_def dryRunCommand_def

lemmas example_defs = hostExtern_def echoTarget_def shellEntry_def baseTemplate_def
  exampleBuild_def

lemmas broken_defs = checkText_def brokenTarget_def brokenBuild_def

lemmas stale_defs = sumA_def sumB_def sumC_def sumD_def staleListing_def staleBuild_def

section \<open>The library functions on examples\<close>

text \<open>
  The functions of the standard library written out above give the results that the
  documentation of \<open>path/filepath\<close> and \<open>strings\<close> lists for them.
\<close>

lemma stdlib_examples:
  "Dir ''/foo/bar/baz.js'' = ''/foo/bar''"
  "Dir ''/foo/bar/baz/'' = ''/foo/bar/baz''"
  "Dir ''/dirty//path///'' = ''/dirty/path''"
  "Dir ''dev.txt'' = ''.''"
  "Dir ''../todo.txt'' = ''..''"
  "Dir ''..'' = ''.''"
  "Dir ''/'' = ''/''"
  "Dir [] = ''.''"
  "Dir ''base/abc.done'' = ''base''"
  "Clean ''a//c'' = ''a/c''"
  "Clean ''a/c/b/..'' = ''a/c''"
  "Clean ''/../a/b/../././/c'' = ''/a/c''"
  "Clean ''a/../..'' = ''..''"
  "Clean ''../../a'' = ''../../a''"
  "Base ''/foo/bar/baz.js'' = ''baz.js''"
  "Base ''/foo/bar/baz/'' = ''baz''"
  "Base ''dev.txt'' = ''dev.txt''"
  "Base [] = ''.''"
  "Base ''///'' = ''/''"
  "Split ''a,b,,c'' (CHR '','') = [''a'', ''b'', [], ''c'']"
  "Split [] (CHR '','') = [[]]"
  "Join [''a'', ''b'', ''c''] '' && '' = ''a && b && c''"
  "TrimSpace ''  a b   '' = ''a b''"
  "TrimSpace [CHR 0xE2, CHR 0x80, CHR 0x80, CHR ''a'', CHR 0xC2, CHR 0xA0, CHR 0x0A] = ''a''"
  "TrimSpace [CHR 0x09, CHR 0x0D, CHR 0x0A] = []"
  "TrimSuffix ''abc.done'' ''.done'' = ''abc''"
  "TrimPrefix ''/var/lib/urknall/base/abc.done'' ''/var/lib/urknall/'' = ''base/abc.done''"
  by (simp_all add: string_defs)

section \<open>The events of the bootstrap and the diff\<close>

lemma runnerCalls_append: "runnerCalls (xs @ ys) = runnerCalls xs @ runnerCalls ys"
  by (induction xs rule: runnerCalls.induct) simp_all

lemma published_append: "published (xs @ ys) = published xs @ published ys"
  by (induction xs rule: published.induct) simp_all

lemma sentTexts_append: "sentTexts (xs @ ys) = sentTexts xs @ sentTexts ys"
  by (induction xs rule: sentTexts.induct) simp_all

lemma internal_runnerCalls: "list_all (internalEv b) evs \<Longrightarrow> runnerCalls evs = []"
  by (induction evs rule: runnerCalls.induct) simp_all

lemma internal_published: "list_all (internalEv b) evs \<Longrightarrow> published evs = []"
  by (induction evs rule: published.induct) simp_all

lemma internal_sentTexts:
  "list_all (internalEv b) evs \<Longrightarrow> s \<in> set (sentTexts evs) \<Longrightarrow> \<exists>raw. s = sudo b @ heredoc raw"
  by (induction evs rule: sentTexts.induct) auto

lemma prepareCommand_eq:
  "prepareCommand b raw w =
     (case Command (Target b) (sudo b @ raw) w of Some e \<Rightarrow> Inl e | None \<Rightarrow> Inr (sudo b @ raw),
      [CommandEv (sudo b @ raw)])"
  by (simp add: prepareCommand_def sudo_def Let_def split: option.splits)

lemma prepareInternalCommand_eq:
  "prepareInternalCommand b raw w =
     (case Command (Target b) (sudo b @ heredoc raw) w of
        Some e \<Rightarrow> Inl e
      | None \<Rightarrow> Inr (sudo b @ heredoc raw),
      [CommandEv (sudo b @ heredoc raw)])"
  by (simp add: prepareInternalCommand_def prepareCommand_eq heredoc_def split: option.splits)

lemma prepareTarget_internal:
  "prepareTarget x b w = (r, w', evs) \<Longrightarrow> list_all (internalEv b) evs"
  by (auto simp: prepareTarget_def prepareInternalCommand_eq
      split: if_splits prod.splits sum.splits option.splits)

lemma buildChecksumTree_internal:
  "buildChecksumTree x b w = (r, w', evs) \<Longrightarrow> list_all (internalEv b) evs"
  by (auto simp: buildChecksumTree_def prepareInternalCommand_eq
      split: if_splits prod.splits sum.splits option.splits)

lemma prepareTask_internal:
  "prepareTask x b t ct w = (r, w', evs) \<Longrightarrow> list_all (internalEv b) evs"
  by (auto simp: prepareTask_def prepareInternalCommand_eq
      split: if_splits prod.splits sum.splits option.splits)

lemma prepareTasks_internal:
  "prepareTasks x b ts ct w = (r, w', evs) \<Longrightarrow> list_all (internalEv b) evs"
proof (induction ts arbitrary: w r w' evs)
  case Nil
  then show ?case by simp
next
  case (Cons t ts)
  then show ?case
    by (auto split: prod.splits sum.splits dest: prepareTask_internal)
qed

lemma prepareBuild_internal:
  "prepareBuild x b w = (r, w', evs) \<Longrightarrow> list_all (internalEv b) evs"
  by (auto simp: prepareBuild_def
      split: prod.splits sum.splits option.splits
      dest: prepareTarget_internal buildChecksumTree_internal prepareTasks_internal)

section \<open>The per-task diff\<close>

lemma markCached_nth:
  "\<exists>cs'. markCached x l i cs = Inr cs' \<and> length cs' = length cs \<and>
     (\<forall>j < length cs.
        cs' ! j =
          (if i + j < length l \<and> commandChecksum x (commandWrapper.command (cs ! j)) = Inr (l ! (i + j))
           then (cs ! j)\<lparr>cached := True\<rparr> else cs ! j))"
proof (induction cs arbitrary: i)
  case Nil
  then show ?case by simp
next
  case (Cons c cs)
  from Cons [of "Suc i"] obtain cs' where
    rec: "markCached x l (Suc i) cs = Inr cs'" and len: "length cs' = length cs" and
    nth: "\<forall>j < length cs.
        cs' ! j =
          (if Suc i + j < length l \<and> commandChecksum x (commandWrapper.command (cs ! j)) = Inr (l ! (Suc i + j))
           then (cs ! j)\<lparr>cached := True\<rparr> else cs ! j)"
    by blast
  obtain s where cc: "commandChecksum x (commandWrapper.command c) = Inr s"
    by (cases "Checksum (commandWrapper.command c)") (auto simp: commandChecksum_def)
  let ?c' = "if length l \<le> i \<or> s \<noteq> l ! i then c else c\<lparr>cached := True\<rparr>"
  have mc: "markCached x l i (c # cs) = Inr (?c' # cs')"
    using rec cc by simp
  have "\<forall>j < length (c # cs).
        (?c' # cs') ! j =
          (if i + j < length l \<and> commandChecksum x (commandWrapper.command ((c # cs) ! j)) = Inr (l ! (i + j))
           then ((c # cs) ! j)\<lparr>cached := True\<rparr> else (c # cs) ! j)"
  proof (intro allI impI)
    fix j assume "j < length (c # cs)"
    then show "(?c' # cs') ! j =
          (if i + j < length l \<and> commandChecksum x (commandWrapper.command ((c # cs) ! j)) = Inr (l ! (i + j))
           then ((c # cs) ! j)\<lparr>cached := True\<rparr> else (c # cs) ! j)"
      using nth cc by (cases j) (auto simp: not_le)
  qed
  with mc len show ?case by simp
qed

text \<open>
  The loop of \<open>prepareTask\<close> never fails and looks at every command: after it, an entry
  is marked cached exactly if it was marked before or its position is inside the cached
  list and the list holds its checksum there. The commands themselves are unchanged.
\<close>

theorem markCached_positional:
  "\<exists>cs'. markCached x l 0 cs = Inr cs' \<and> length cs' = length cs \<and>
     (\<forall>j < length cs.
        cached (cs' ! j) =
          (cached (cs ! j) \<or>
           j < length l \<and> commandChecksum x (commandWrapper.command (cs ! j)) = Inr (l ! j)) \<and>
        commandWrapper.command (cs' ! j) = commandWrapper.command (cs ! j))"
proof -
  from markCached_nth [of x l 0 cs] obtain cs' where
    mc: "markCached x l 0 cs = Inr cs'" and len: "length cs' = length cs" and
    nth: "\<forall>j < length cs.
        cs' ! j =
          (if 0 + j < length l \<and> commandChecksum x (commandWrapper.command (cs ! j)) = Inr (l ! (0 + j))
           then (cs ! j)\<lparr>cached := True\<rparr> else cs ! j)"
    by blast
  have "\<forall>j < length cs.
        cached (cs' ! j) =
          (cached (cs ! j) \<or>
           j < length l \<and> commandChecksum x (commandWrapper.command (cs ! j)) = Inr (l ! j)) \<and>
        commandWrapper.command (cs' ! j) = commandWrapper.command (cs ! j)"
    using nth by auto
  with mc len show ?thesis by blast
qed

theorem markCached_positional_witness:
  "\<forall>H. \<exists>cs'.
     markCached (hostExtern H) [sumA] 0
       [sumEntry ''echo hello'' sumA,
        sumEntry ''echo world'' sumC] = Inr cs'
     \<and> map cached cs' = [True, False]"
proof (intro allI)
  fix H :: "string \<Rightarrow> string"
  let ?x = "hostExtern H" and ?l = "[sumA]"
  let ?cs = "[sumEntry ''echo hello'' sumA,
        sumEntry ''echo world'' sumC]"
  from markCached_positional [of ?x ?l ?cs] obtain cs' where
    mc: "markCached ?x ?l 0 ?cs = Inr cs'" and len: "length cs' = length ?cs" and
    nth: "\<forall>j < length ?cs.
        cached (cs' ! j) =
          (cached (?cs ! j) \<or>
           j < length ?l \<and> commandChecksum ?x (commandWrapper.command (?cs ! j)) = Inr (?l ! j)) \<and>
        commandWrapper.command (cs' ! j) = commandWrapper.command (?cs ! j)"
    by blast
  from nth have "cached (cs' ! 0)" and "\<not> cached (cs' ! 1)"
    by (simp_all add: commandChecksum_def sumEntry_def sumA_def sumC_def)
  moreover from len obtain a b where "cs' = [a, b]"
    by (cases cs'; cases "tl cs'") auto
  ultimately have m: "map cached cs' = [True, False]" by simp
  show "\<exists>cs'. markCached ?x ?l 0 ?cs = Inr cs' \<and> map cached cs' = [True, False]"
    by (rule exI [of _ cs']) (intro conjI mc m)
qed

text \<open>
  Claim C1. The claim says that the first mismatch breaks the streak: no command at or
  after the first position that does not match is marked cached. The loop does not stop
  there. For the task \<open>base\<close> with three commands whose checksums are \<open>sumA\<close>,
  \<open>sumB\<close> and \<open>sumC\<close>, and the cached list \<open>sumA\<close>, \<open>sumD\<close>, \<open>sumC\<close>, the second
  command does not match and the third one is marked cached all the same. In the build
  whose target lists these three markers, \<open>Run\<close> runs the second command only: the third
  one is skipped though the command before it ran again.
\<close>

theorem prepareTask_match_after_mismatch:
  "prepareTask x b
     \<lparr>name = ''base'',
      commands =
        [sumEntry ''echo hello'' sumA, sumEntry ''echo middle'' sumB,
         sumEntry ''echo world'' sumC],
      started = 0\<rparr>
     [''base'' \<mapsto> [sumA, sumD, sumC]] w =
     (Inr \<lparr>name = ''base'',
           commands =
             [(sumEntry ''echo hello'' sumA)\<lparr>cached := True\<rparr>,
              sumEntry ''echo middle'' sumB,
              (sumEntry ''echo world'' sumC)\<lparr>cached := True\<rparr>],
           started = 0\<rparr>,
      w, [])
   \<and> runnerCalls (snd (snd (Run (hostExtern H) staleBuild 0))) =
       [(''base'', \<lparr>Shell = ''echo middle'', Checksum = Some sumB\<rparr>, None)]"
proof -
  have 1: "prepareTask x b
     \<lparr>name = ''base'',
      commands =
        [sumEntry ''echo hello'' sumA, sumEntry ''echo middle'' sumB,
         sumEntry ''echo world'' sumC],
      started = 0\<rparr>
     [''base'' \<mapsto> [sumA, sumD, sumC]] w =
     (Inr \<lparr>name = ''base'',
           commands =
             [(sumEntry ''echo hello'' sumA)\<lparr>cached := True\<rparr>,
              sumEntry ''echo middle'' sumB,
              (sumEntry ''echo world'' sumC)\<lparr>cached := True\<rparr>],
           started = 0\<rparr>,
      w, [])"
    by (simp add: prepareTask_def commandChecksum_def sumEntry_def sumA_def sumB_def sumC_def
        sumD_def)
  have 2: "runnerCalls (snd (snd (Run (hostExtern H) staleBuild 0))) =
       [(''base'', \<lparr>Shell = ''echo middle'', Checksum = Some sumB\<rparr>, None)]"
    by (simp add: driver_defs example_defs string_defs stale_defs sumEntry_def)
  from 1 2 show ?thesis by (rule conjI)
qed

section \<open>The fingerprint of a command\<close>

lemma length_Sprintf_x: "length (Sprintf_x b) = 2 * length b"
  by (induction b) (simp_all add: Sprintf_x_def hexByte_def)

lemma hexDigit_lower: "hexDigit n \<in> set ''0123456789abcdef''"
proof -
  have "n mod 16 < length ''0123456789abcdef''" by simp
  then show ?thesis unfolding hexDigit_def by (rule nth_mem)
qed

lemma set_Sprintf_x: "set (Sprintf_x b) \<subseteq> set ''0123456789abcdef''"
  using hexDigit_lower by (auto simp: Sprintf_x_def hexByte_def)

text \<open>
  Claim C2. The fingerprint of a command is its own \<open>Checksum()\<close>, unchanged, when it has
  one; otherwise it is the SHA-256 digest of exactly the bytes of \<open>Shell()\<close>, printed in
  hexadecimal: two digits for each byte of the digest, none of them an upper-case letter
  (so 64 characters for the 32 bytes of a SHA-256 digest). \<open>commandChecksum\<close> never
  returns an error.
\<close>

theorem commandChecksum_fingerprint:
  "commandChecksum x c =
     Inr (case Checksum c of
            Some s \<Rightarrow> s
          | None \<Rightarrow> Sprintf_x (sha256_Sum x (Shell c)))
   \<and> length (Sprintf_x b) = 2 * length b
   \<and> set (Sprintf_x b) \<subseteq> set ''0123456789abcdef''
   \<and> Sprintf_x [CHR 0x00, CHR 0x1F, CHR 0xA0, CHR 0xFF] = ''001fa0ff''"
proof -
  have 1: "commandChecksum x c =
     Inr (case Checksum c of Some s \<Rightarrow> s | None \<Rightarrow> Sprintf_x (sha256_Sum x (Shell c)))"
    by (simp add: commandChecksum_def split: option.splits)
  have 2: "Sprintf_x [CHR 0x00, CHR 0x1F, CHR 0xA0, CHR 0xFF] = ''001fa0ff''"
    by (simp add: Sprintf_x_def hexByte_def hexDigit_def)
  show ?thesis using 1 2 length_Sprintf_x set_Sprintf_x by blast
qed

section \<open>A corrupt checksum listing\<close>

lemma parseLines_corrupt:
  "l \<in> set ls \<Longrightarrow> corruptLine l \<Longrightarrow>
     \<exists>c p. length c \<noteq> 64 \<and> parseLines x ls ct = Inl (InvalidChecksum c p)"
proof (induction ls arbitrary: ct)
  case Nil
  then show ?case by simp
next
  case (Cons a ls)
  show ?case
  proof (cases "corruptLine a")
    case True
    then show ?thesis by (simp add: corruptLine_def Let_def)
  next
    case False
    with Cons.prems have "l \<in> set ls" by auto
    from Cons.IH [OF this Cons.prems(2)] show ?thesis
      by (simp add: Let_def)
  qed
qed

text \<open>
  Claim C3. Let the template render, the target be prepared, and the read of the checksum
  listing succeed with an output that has a corrupt line. Then building the checksum tree
  fails with the error for an invalid checksum, whose checksum does not have 64 characters;
  \<open>Run\<close> and \<open>DryRun\<close> return that error, wrapped as an error of building the checksum
  tree, straight after the read; and the remote task runner has not run, so no command of
  the package was executed.
\<close>

theorem Run_corrupt_cache:
  assumes "renderTemplate (Template b) = Inr pk"
    and "prepareTarget x b w = (None, w1, evs1)"
    and "prepareInternalCommand b (buildChecksumTree_rawCmd x) w1 = (Inr c, evs2)"
    and "Exec (Target b) c w1 = ((None, out, err), w2)"
    and "l \<in> set (Split out (CHR 0x0A))"
    and "corruptLine l"
  shows "\<exists>cs p. length cs \<noteq> 64
           \<and> buildChecksumTree x b w1 =
               (Inl (InvalidChecksum cs p), w2, evs2 @ [RunEv c None])
           \<and> Run x b w =
               (Some (ChecksumTreeError (InvalidChecksum cs p)), w2,
                evs1 @ evs2 @ [RunEv c None])
           \<and> DryRun x b w =
               (Some (ChecksumTreeError (InvalidChecksum cs p)), w2,
                evs1 @ evs2 @ [RunEv c None])
           \<and> runnerCalls (evs1 @ evs2 @ [RunEv c None]) = []"
proof -
  from parseLines_corrupt [OF assms(5,6)] obtain cs p where
    len: "length cs \<noteq> 64" and
    pl: "parseLines x (Split out (CHR 0x0A)) Map.empty = Inl (InvalidChecksum cs p)"
    by blast
  have bct: "buildChecksumTree x b w1 =
               (Inl (InvalidChecksum cs p), w2, evs2 @ [RunEv c None])"
    using assms(3,4) pl by (simp add: buildChecksumTree_def)
  have pb: "prepareBuild x b w =
      (Inl (ChecksumTreeError (InvalidChecksum cs p)), w2, evs1 @ evs2 @ [RunEv c None])"
    using assms(1,2) bct by (simp add: prepareBuild_def)
  have run: "Run x b w =
      (Some (ChecksumTreeError (InvalidChecksum cs p)), w2, evs1 @ evs2 @ [RunEv c None])"
    using pb by (simp add: Run_def)
  have dry: "DryRun x b w =
      (Some (ChecksumTreeError (InvalidChecksum cs p)), w2, evs1 @ evs2 @ [RunEv c None])"
    using pb by (simp add: DryRun_def)
  have "runnerCalls (evs1 @ evs2 @ [RunEv c None]) = []"
    using pb by (rule internal_runnerCalls [OF prepareBuild_internal])
  with len bct run dry show ?thesis by blast
qed

theorem Run_corrupt_cache_witness:
  "\<forall>H. \<exists>cs p w2 evs.
      corruptLine ''/var/lib/urknall/base/abc.done''
      \<and> length cs \<noteq> 64
      \<and> Run (hostExtern H) (exampleBuild H corruptListing [''echo hello'']) 0 =
          (Some (ChecksumTreeError (InvalidChecksum cs p)), w2, evs)
      \<and> runnerCalls evs = []"
proof (intro allI)
  fix H :: "string \<Rightarrow> string"
  let ?x = "hostExtern H" and ?b = "exampleBuild H corruptListing [''echo hello'']"
  obtain pk where h1: "renderTemplate (Template ?b) = Inr pk"
    by (simp add: renderTemplate_def example_defs)
  obtain w1 evs1 where h2: "prepareTarget ?x ?b 0 = (None, w1, evs1)"
    by (simp add: prepareTarget_def prepareInternalCommand_eq example_defs)
  obtain c evs2 where h3: "prepareInternalCommand ?b (buildChecksumTree_rawCmd ?x) w1 = (Inr c, evs2)"
    by (simp add: prepareInternalCommand_eq example_defs)
  obtain w2 where h4: "Exec (Target ?b) c w1 = ((None, corruptListing, []), w2)"
    by (simp add: example_defs)
  have h5: "''/var/lib/urknall/base/abc.done'' \<in> set (Split corruptListing (CHR 0x0A))"
    by (simp add: corruptListing_def)
  have h6: "corruptLine ''/var/lib/urknall/base/abc.done''"
    by (simp add: corruptLine_def string_defs)
  from Run_corrupt_cache [OF h1 h2 h3 h4 h5 h6] h6
  show "\<exists>cs p w2 evs.
      corruptLine ''/var/lib/urknall/base/abc.done''
      \<and> length cs \<noteq> 64
      \<and> Run ?x ?b 0 = (Some (ChecksumTreeError (InvalidChecksum cs p)), w2, evs)
      \<and> runnerCalls evs = []"
    by blast
qed

section \<open>Preparing the target\<close>

text \<open>
  Claim C4, as the code has it. Let the user be set and the two internal commands be
  created. If the preflight check passes, preparation succeeds after it. If it fails, its
  error is dropped and the repair sequence (the four commands of \<open>prepareTarget_cmds\<close>,
  joined by \<open>&&\<close>) is run: if the repair fails, preparation fails with the error that
  holds the user, the repair's error and its output; if it succeeds, the transport is reset
  and the result of the reset is the result of the preparation. The check is not run a
  second time.
\<close>

theorem prepareTarget_repair:
  assumes "User (Target b) \<noteq> []"
    and "prepareInternalCommand b (prepareTarget_rawCmd x b) w = (Inr c, evs)"
    and "Exec (Target b) c w = ((r1, out, err), w1)"
    and "prepareInternalCommand b (Join (prepareTarget_cmds x b) '' && '') w1 = (Inr c2, evs2)"
    and "Exec (Target b) c2 w1 = ((r2, out2, err2), w2)"
  shows "prepareTarget x b w =
           (case r1 of
              None \<Rightarrow> (None, w1, evs @ [RunEv c None])
            | Some e0 \<Rightarrow>
                (case r2 of
                   Some e \<Rightarrow>
                     (Some (InitiateUserFailed (User (Target b)) e out2 err2), w2,
                      evs @ [RunEv c (Some e0)] @ evs2 @ [RunEv c2 (Some e)])
                 | None \<Rightarrow>
                     (fst (Reset (Target b) w2), snd (Reset (Target b) w2),
                      evs @ [RunEv c (Some e0)] @ evs2 @
                      [RunEv c2 None, ResetEv (fst (Reset (Target b) w2))])))"
  using assms by (simp add: prepareTarget_def split: option.splits prod.splits)

theorem prepareTarget_repair_witness:
  "\<exists>c evs e0 w1 c2 evs2 w2.
      User (Target brokenBuild) \<noteq> []
      \<and> prepareInternalCommand brokenBuild
            (prepareTarget_rawCmd hostConsts brokenBuild) 0 = (Inr c, evs)
      \<and> Exec (Target brokenBuild) c 0 = ((Some e0, [], []), w1)
      \<and> prepareInternalCommand brokenBuild
            (Join (prepareTarget_cmds hostConsts brokenBuild) '' && '') w1 = (Inr c2, evs2)
      \<and> Exec (Target brokenBuild) c2 w1 = ((None, [], []), w2)
      \<and> prepareTarget hostConsts brokenBuild 0 =
           (None, Suc w2, evs @ [RunEv c (Some e0)] @ evs2 @ [RunEv c2 None, ResetEv None])"
proof -
  let ?x = "hostConsts" and ?b = "brokenBuild"
  have h1: "User (Target ?b) \<noteq> []" by (simp add: broken_defs)
  obtain c evs where h2: "prepareInternalCommand ?b (prepareTarget_rawCmd ?x ?b) 0 = (Inr c, evs)"
    and c: "c = checkText"
    by (simp add: prepareInternalCommand_def prepareCommand_def prepareTarget_rawCmd_def
        hostConsts_def broken_defs)
  obtain e0 w1 where h3: "Exec (Target ?b) c 0 = ((Some e0, [], []), w1)"
    using c by (simp add: brokenTarget_def brokenBuild_def)
  obtain c2 evs2 where
    h4: "prepareInternalCommand ?b (Join (prepareTarget_cmds ?x ?b) '' && '') w1 = (Inr c2, evs2)"
    and c2: "c2 \<noteq> checkText"
    by (simp add: prepareInternalCommand_def prepareCommand_def prepareTarget_cmds_def
        hostConsts_def broken_defs)
  obtain w2 where h5: "Exec (Target ?b) c2 w1 = ((None, [], []), w2)"
    using c2 by (simp add: brokenTarget_def brokenBuild_def)
  have r: "Reset (Target ?b) w2 = (None, Suc w2)" by (simp add: broken_defs)
  from prepareTarget_repair [OF h1 h2 h3 h4 h5] r
  have pt: "prepareTarget ?x ?b 0 =
           (None, Suc w2, evs @ [RunEv c (Some e0)] @ evs2 @ [RunEv c2 None, ResetEv None])"
    by simp
  show ?thesis
    by (rule exI [of _ c], rule exI [of _ evs], rule exI [of _ e0], rule exI [of _ w1],
        rule exI [of _ c2], rule exI [of _ evs2], rule exI [of _ w2])
      (intro conjI h1 h2 h3 h4 h5 pt)
qed

text \<open>
  Claim C4 as stated fails: the preflight check is not retried after the reset. On the
  target where the check fails whenever it is run, preparation succeeds: the check is run
  once, the repair is run, the transport is reset, and nothing follows, though the check
  would still fail in the world that is left.
\<close>

theorem prepareTarget_no_retry_counterexample:
  "prepareTarget hostConsts brokenBuild 0 =
     (None, 3,
      [CommandEv checkText, RunEv checkText (Some (External ''exit status 1'')),
       CommandEv (sudo brokenBuild @
                  heredoc (Join (prepareTarget_cmds hostConsts brokenBuild) '' && '')),
       RunEv (sudo brokenBuild @
              heredoc (Join (prepareTarget_cmds hostConsts brokenBuild) '' && '')) None,
       ResetEv None])
   \<and> checkText = sudo brokenBuild @ heredoc (prepareTarget_rawCmd hostConsts brokenBuild)
   \<and> runsOf checkText (snd (snd (prepareTarget hostConsts brokenBuild 0))) = 1
   \<and> fst (fst (Exec (Target brokenBuild) checkText 3)) = Some (External ''exit status 1'')"
  by (simp add: prepareTarget_def prepareInternalCommand_def prepareCommand_def
      prepareTarget_rawCmd_def prepareTarget_cmds_def sudo_def heredoc_def
      hostConsts_def broken_defs)

section \<open>Running the tasks\<close>

lemma buildCommands_calls:
  "buildCommands x b t cs w = (res, w', evs) \<Longrightarrow>
     (case res of
        None \<Rightarrow>
          runnerCalls evs =
            map (\<lambda>c. (name t, commandWrapper.command c, None)) (filter (\<lambda>c. \<not> cached c) cs)
      | Some e \<Rightarrow>
          (\<exists>pre c post.
             filter (\<lambda>c. \<not> cached c) cs = pre @ c # post \<and>
             runnerCalls evs =
               map (\<lambda>c. (name t, commandWrapper.command c, None)) pre @
               [(name t, commandWrapper.command c, Some e)]))"
proof (induction cs arbitrary: w res w' evs)
  case Nil
  then show ?case by simp
next
  case (Cons c cs)
  show ?case
  proof (cases "cached c")
    case True
    obtain r1 w1 evs1 where rec: "buildCommands x b t cs w = (r1, w1, evs1)"
      by (cases "buildCommands x b t cs w") auto
    with True Cons.prems have "res = r1" and evs: "evs = PublishEv ((taskMessage b t c)\<lparr>ExecStatus := StatusCached\<rparr>) ''finished'' # evs1"
      by auto
    with Cons.IH [OF rec] True show ?thesis by (simp split: option.splits)
  next
    case False
    let ?r = "\<lparr>cmd = [], remoteTaskRunner.command = commandWrapper.command c,
                 dir = ukCACHEDIR x @ ''/'' @ name t, taskName = name t,
                 taskStarted = started t\<rparr>"
    obtain e w1 where run: "runner_run x b ?r w = (e, w1)"
      by (cases "runner_run x b ?r w") auto
    show ?thesis
    proof (cases e)
      case (Some err)
      with False run Cons.prems have "res = Some err" and "runnerCalls evs = [(name t, commandWrapper.command c, Some err)]"
        by auto
      moreover have "filter (\<lambda>c. \<not> cached c) (c # cs) = [] @ c # filter (\<lambda>c. \<not> cached c) cs"
        using False by simp
      ultimately have "\<exists>pre c' post.
             filter (\<lambda>c. \<not> cached c) (c # cs) = pre @ c' # post \<and>
             runnerCalls evs =
               map (\<lambda>c. (name t, commandWrapper.command c, None)) pre @
               [(name t, commandWrapper.command c', Some err)]"
        by (intro exI [of _ "[]"] exI [of _ c] exI [of _ "filter (\<lambda>c. \<not> cached c) cs"]) simp
      with \<open>res = Some err\<close> show ?thesis by (simp del: filter.simps)
    next
      case None
      obtain r1 w2 evs1 where rec: "buildCommands x b t cs w1 = (r1, w2, evs1)"
        by (cases "buildCommands x b t cs w1") auto
      with None False run Cons.prems have res: "res = r1"
        and calls: "runnerCalls evs = (name t, commandWrapper.command c, None) # runnerCalls evs1"
        by auto
      show ?thesis
      proof (cases r1)
        case None
        with Cons.IH [OF rec] res calls False show ?thesis by simp
      next
        case (Some e')
        with Cons.IH [OF rec] obtain pre c' post where
          f: "filter (\<lambda>c. \<not> cached c) cs = pre @ c' # post" and
          r: "runnerCalls evs1 =
               map (\<lambda>c. (name t, commandWrapper.command c, None)) pre @
               [(name t, commandWrapper.command c', Some e')]"
          by auto
        have "filter (\<lambda>c. \<not> cached c) (c # cs) = (c # pre) @ c' # post"
          using False f by simp
        moreover have "runnerCalls evs =
               map (\<lambda>c. (name t, commandWrapper.command c, None)) (c # pre) @
               [(name t, commandWrapper.command c', Some e')]"
          using calls r by simp
        ultimately have "\<exists>pre c' post.
             filter (\<lambda>c. \<not> cached c) (c # cs) = pre @ c' # post \<and>
             runnerCalls evs =
               map (\<lambda>c. (name t, commandWrapper.command c, None)) pre @
               [(name t, commandWrapper.command c', Some e')]"
          by (intro exI [of _ "c # pre"] exI [of _ c'] exI [of _ post] conjI)
        with res Some show ?thesis by (simp del: filter.simps)
      qed
    qed
  qed
qed

lemma stops_append_ok:
  assumes "stopsAtFirstError ps1 None c1" and "stopsAtFirstError ps2 r c2"
  shows "stopsAtFirstError (ps1 @ ps2) r (c1 @ c2)"
proof (cases r)
  case None
  with assms show ?thesis by (simp add: stopsAtFirstError_def)
next
  case (Some e)
  with assms obtain pre p post where
    "ps2 = pre @ p # post" and "c2 = map succeeded pre @ [(fst p, snd p, Some e)]"
    by (auto simp: stopsAtFirstError_def)
  with assms(1) have
    "ps1 @ ps2 = (ps1 @ pre) @ p # post \<and>
     c1 @ c2 = map succeeded (ps1 @ pre) @ [(fst p, snd p, Some e)]"
    by (simp add: stopsAtFirstError_def)
  then have "\<exists>pre' p' post'. ps1 @ ps2 = pre' @ p' # post' \<and>
     c1 @ c2 = map succeeded pre' @ [(fst p', snd p', Some e)]"
    by (intro exI [of _ "ps1 @ pre"] exI [of _ p] exI [of _ post])
  with Some show ?thesis by (simp add: stopsAtFirstError_def)
qed

lemma stops_append_fail:
  assumes "stopsAtFirstError ps1 (Some e) c1"
  shows "stopsAtFirstError (ps1 @ ps2) (Some e) c1"
proof -
  from assms obtain pre p post where
    "ps1 = pre @ p # post" and "c1 = map succeeded pre @ [(fst p, snd p, Some e)]"
    by (auto simp: stopsAtFirstError_def)
  then have "ps1 @ ps2 = pre @ p # (post @ ps2) \<and>
     c1 = map succeeded pre @ [(fst p, snd p, Some e)]"
    by simp
  then have "\<exists>pre' p' post'. ps1 @ ps2 = pre' @ p' # post' \<and>
     c1 = map succeeded pre' @ [(fst p', snd p', Some e)]"
    by (intro exI [of _ pre] exI [of _ p] exI [of _ "post @ ps2"])
  then show ?thesis by (simp add: stopsAtFirstError_def)
qed

lemma buildTask_calls:
  assumes "buildTask x b t w = (res, w', evs)"
  shows "stopsAtFirstError (pending [t]) res (runnerCalls evs)"
proof -
  let ?t = "t\<lparr>started := time_Now x w\<rparr>"
  from assms have bc: "buildCommands x b ?t (commands t) w = (res, w', evs)"
    by (simp add: buildTask_def)
  have m: "map (\<lambda>c. (name ?t, commandWrapper.command c, None)) cs =
        map succeeded (map (\<lambda>c. (name t, commandWrapper.command c)) cs)" for cs
    by (simp add: succeeded_def)
  show ?thesis
  proof (cases res)
    case None
    with buildCommands_calls [OF bc] show ?thesis
      by (simp add: stopsAtFirstError_def pending_def succeeded_def)
  next
    case (Some e)
    with buildCommands_calls [OF bc] obtain pre c post where
      f: "filter (\<lambda>c. \<not> cached c) (commands t) = pre @ c # post" and
      r: "runnerCalls evs =
            map (\<lambda>c. (name ?t, commandWrapper.command c, None)) pre @
            [(name ?t, commandWrapper.command c, Some e)]"
      by auto
    let ?f = "\<lambda>c. (name t, commandWrapper.command c)"
    have "pending [t] = map ?f pre @ ?f c # map ?f post \<and>
          runnerCalls evs = map succeeded (map ?f pre) @ [(fst (?f c), snd (?f c), Some e)]"
      using f r by (simp add: pending_def succeeded_def)
    then have "\<exists>pre' p' post'. pending [t] = pre' @ p' # post' \<and>
          runnerCalls evs = map succeeded pre' @ [(fst p', snd p', Some e)]"
      by (intro exI [of _ "map ?f pre"] exI [of _ "?f c"] exI [of _ "map ?f post"])
    with Some show ?thesis by (simp add: stopsAtFirstError_def)
  qed
qed

lemma pending_Cons: "pending (t # ts) = pending [t] @ pending ts"
  by (simp add: pending_def)

lemma buildTasks_calls:
  "buildTasks x b ts w = (res, w', evs) \<Longrightarrow> stopsAtFirstError (pending ts) res (runnerCalls evs)"
proof (induction ts arbitrary: w res w' evs)
  case Nil
  then show ?case by (simp add: stopsAtFirstError_def pending_def)
next
  case (Cons t ts)
  obtain r1 w1 evs1 where bt: "buildTask x b t w = (r1, w1, evs1)"
    by (cases "buildTask x b t w") auto
  show ?case
  proof (cases r1)
    case (Some e)
    with bt Cons.prems have "res = Some e" and "evs = evs1" by auto
    with buildTask_calls [OF bt] Some show ?thesis
      by (simp add: pending_Cons [of t ts] stops_append_fail)
  next
    case None
    obtain r2 w2 evs2 where bts: "buildTasks x b ts w1 = (r2, w2, evs2)"
      by (cases "buildTasks x b ts w1") auto
    with None bt Cons.prems have "res = r2" and "evs = evs1 @ evs2" by auto
    with buildTask_calls [OF bt] None Cons.IH [OF bts] show ?thesis
      by (simp add: pending_Cons [of t ts] runnerCalls_append stops_append_ok)
  qed
qed

text \<open>
  Claim C5. After a successful preparation \<open>Run\<close> runs the commands of the package that
  are not marked cached, task by task and in order inside a task. If it returns no error,
  each of them ran once and without error. If it returns the error \<open>e\<close>, the calls are an
  initial part of that list: all but the last one ran without error, the last one failed
  with \<open>e\<close>, and nothing ran after it, neither the failed command again nor a later
  command or task.
\<close>

theorem Run_stops_at_first_error:
  assumes "prepareBuild x b w = (Inr pk, w1, evs1)"
    and "Run x b w = (res, w2, evs)"
  shows "case res of
           None \<Rightarrow> runnerCalls evs = map succeeded (pending (tasks pk))
         | Some e \<Rightarrow>
             (\<exists>pre p post. pending (tasks pk) = pre @ p # post \<and>
                runnerCalls evs = map succeeded pre @ [(fst p, snd p, Some e)])"
proof -
  obtain r2 w3 evs2 where bts: "buildTasks x b (tasks pk) w1 = (r2, w3, evs2)"
    by (cases "buildTasks x b (tasks pk) w1") auto
  have "runnerCalls evs1 = []"
    using assms(1) by (rule internal_runnerCalls [OF prepareBuild_internal])
  with assms bts have "res = r2" and "runnerCalls evs = runnerCalls evs2"
    by (auto simp: Run_def runnerCalls_append split: option.splits)
  with buildTasks_calls [OF bts] show ?thesis
    by (simp add: stopsAtFirstError_def split: option.splits)
qed

theorem Run_stops_at_first_error_witness:
  "\<forall>H. \<exists>pk w1 evs1 w2 evs.
      prepareBuild (hostExtern H) (exampleBuild H [] [''true'', ''false'', ''echo never'']) 0 =
        (Inr pk, w1, evs1)
      \<and> Run (hostExtern H) (exampleBuild H [] [''true'', ''false'', ''echo never'']) 0 =
        (Some (External ''exit status 1''), w2, evs)
      \<and> pending (tasks pk) =
          [(''base'', \<lparr>Shell = ''true'', Checksum = None\<rparr>),
           (''base'', \<lparr>Shell = ''false'', Checksum = None\<rparr>),
           (''base'', \<lparr>Shell = ''echo never'', Checksum = None\<rparr>)]
      \<and> (\<exists>pre p post. pending (tasks pk) = pre @ p # post \<and>
            runnerCalls evs = map succeeded pre @ [(fst p, snd p, Some (External ''exit status 1''))])"
proof (intro allI)
  fix H :: "string \<Rightarrow> string"
  let ?x = "hostExtern H" and ?b = "exampleBuild H [] [''true'', ''false'', ''echo never'']"
  obtain pk w1 evs1 where pb: "prepareBuild ?x ?b 0 = (Inr pk, w1, evs1)"
    and pend: "pending (tasks pk) =
          [(''base'', \<lparr>Shell = ''true'', Checksum = None\<rparr>),
           (''base'', \<lparr>Shell = ''false'', Checksum = None\<rparr>),
           (''base'', \<lparr>Shell = ''echo never'', Checksum = None\<rparr>)]"
    by (simp add: driver_defs example_defs string_defs pending_def)
  obtain w2 evs where run: "Run ?x ?b 0 = (Some (External ''exit status 1''), w2, evs)"
    by (simp add: driver_defs example_defs string_defs)
  from Run_stops_at_first_error [OF pb run]
  have ex: "\<exists>pre p post. pending (tasks pk) = pre @ p # post \<and>
            runnerCalls evs = map succeeded pre @ [(fst p, snd p, Some (External ''exit status 1''))]"
    by (simp only: option.case)
  show "\<exists>pk w1 evs1 w2 evs.
      prepareBuild ?x ?b 0 = (Inr pk, w1, evs1)
      \<and> Run ?x ?b 0 = (Some (External ''exit status 1''), w2, evs)
      \<and> pending (tasks pk) =
          [(''base'', \<lparr>Shell = ''true'', Checksum = None\<rparr>),
           (''base'', \<lparr>Shell = ''false'', Checksum = None\<rparr>),
           (''base'', \<lparr>Shell = ''echo never'', Checksum = None\<rparr>)]
      \<and> (\<exists>pre p post. pending (tasks pk) = pre @ p # post \<and>
            runnerCalls evs = map succeeded pre @ [(fst p, snd p, Some (External ''exit status 1''))])"
    by (rule exI [of _ pk], rule exI [of _ w1], rule exI [of _ evs1], rule exI [of _ w2],
        rule exI [of _ evs])
      (intro conjI pb run pend ex)
qed

lemma dryRun_runnerCalls:
  "runnerCalls (concat (map (\<lambda>tsk. map (dryRunCommand b tsk) (commands tsk)) ts)) = []"
proof (induction ts)
  case Nil
  then show ?case by simp
next
  case (Cons t ts)
  have "runnerCalls (map (dryRunCommand b t) cs) = []" for cs
    by (induction cs) (auto simp: dryRunCommand_def)
  with Cons show ?case by (simp add: runnerCalls_append)
qed

text \<open>
  \<open>DryRun\<close> never runs the remote task runner.
\<close>

theorem DryRun_runs_nothing:
  "runnerCalls (snd (snd (DryRun x b w))) = []"
proof -
  obtain rp w1 evs1 where pb: "prepareBuild x b w = (rp, w1, evs1)"
    by (cases "prepareBuild x b w") auto
  have "runnerCalls evs1 = []"
    using pb by (rule internal_runnerCalls [OF prepareBuild_internal])
  with pb show ?thesis
    by (cases rp) (simp_all add: DryRun_def runnerCalls_append dryRun_runnerCalls)
qed

section \<open>Sudo and the here-document\<close>

lemma buildCommands_sentTexts:
  "buildCommands x b t cs w = (res, w', evs) \<Longrightarrow> sentTexts evs = []"
proof (induction cs arbitrary: w res w' evs)
  case Nil
  then show ?case by simp
next
  case (Cons c cs)
  then show ?case
    by (fastforce split: if_splits prod.splits option.splits)
qed

lemma buildTasks_sentTexts:
  "buildTasks x b ts w = (res, w', evs) \<Longrightarrow> sentTexts evs = []"
proof (induction ts arbitrary: w res w' evs)
  case Nil
  then show ?case by simp
next
  case (Cons t ts)
  then show ?case
    by (fastforce simp: buildTask_def sentTexts_append
        split: prod.splits option.splits dest: buildCommands_sentTexts)
qed

lemma dryRun_sentTexts:
  "sentTexts (concat (map (\<lambda>tsk. map (dryRunCommand b tsk) (commands tsk)) ts)) = []"
proof (induction ts)
  case Nil
  then show ?case by simp
next
  case (Cons t ts)
  have "sentTexts (map (dryRunCommand b t) cs) = []" for cs
    by (induction cs) (auto simp: dryRunCommand_def)
  with Cons show ?case by (simp add: sentTexts_append)
qed

lemma Run_sentTexts:
  "sentTexts (snd (snd (Run x b w))) = sentTexts (snd (snd (prepareBuild x b w)))"
proof -
  obtain rp w1 evs1 where pb: "prepareBuild x b w = (rp, w1, evs1)"
    by (cases "prepareBuild x b w") auto
  show ?thesis
  proof (cases rp)
    case (Inl e)
    with pb show ?thesis by (simp add: Run_def)
  next
    case (Inr pk)
    obtain r2 w2 evs2 where bts: "buildTasks x b (tasks pk) w1 = (r2, w2, evs2)"
      by (cases "buildTasks x b (tasks pk) w1") auto
    with pb Inr buildTasks_sentTexts [OF bts] show ?thesis
      by (auto simp: Run_def sentTexts_append split: option.splits)
  qed
qed

lemma DryRun_sentTexts:
  "sentTexts (snd (snd (DryRun x b w))) = sentTexts (snd (snd (prepareBuild x b w)))"
proof -
  obtain rp w1 evs1 where pb: "prepareBuild x b w = (rp, w1, evs1)"
    by (cases "prepareBuild x b w") auto
  then show ?thesis
    by (cases rp) (simp_all add: DryRun_def sentTexts_append dryRun_sentTexts)
qed

text \<open>
  Claim C6. \<open>prepareCommand\<close> hands the raw string to the target with \<open>sudo \<close> in
  front unless the user is \<open>root\<close>. \<open>prepareInternalCommand\<close> first puts the string
  into a here-document for \<open>sh -x -e\<close>, and the prefix goes in front of that. Every
  string that \<open>Run\<close> and \<open>DryRun\<close> themselves hand to the target (the commands of the
  bootstrap and the diff) has this form. The strings of the remote task runner are
  outside the sources at hand.
\<close>

theorem sudo_and_heredoc:
  "snd (prepareCommand b raw w) =
     [CommandEv ((if User (Target b) = ''root'' then [] else ''sudo '') @ raw)]
   \<and> snd (prepareInternalCommand b raw w) =
     [CommandEv ((if User (Target b) = ''root'' then [] else ''sudo '') @
        ''sh -x -e <<'' @ [CHR 0x22] @ ''EOC'' @ [CHR 0x22, CHR 0x0A] @ raw @
        [CHR 0x0A] @ ''EOC'' @ [CHR 0x0A])]
   \<and> (\<forall>s \<in> set (sentTexts (snd (snd (Run x b w)))) \<union> set (sentTexts (snd (snd (DryRun x b w)))).
        \<exists>r. s = (if User (Target b) = ''root'' then [] else ''sudo '') @
               ''sh -x -e <<'' @ [CHR 0x22] @ ''EOC'' @ [CHR 0x22, CHR 0x0A] @ r @
               [CHR 0x0A] @ ''EOC'' @ [CHR 0x0A])"
proof -
  have 1: "snd (prepareCommand b raw w) =
     [CommandEv ((if User (Target b) = ''root'' then [] else ''sudo '') @ raw)]"
    by (simp add: prepareCommand_eq sudo_def)
  have 2: "snd (prepareInternalCommand b raw w) =
     [CommandEv ((if User (Target b) = ''root'' then [] else ''sudo '') @
        ''sh -x -e <<'' @ [CHR 0x22] @ ''EOC'' @ [CHR 0x22, CHR 0x0A] @ raw @
        [CHR 0x0A] @ ''EOC'' @ [CHR 0x0A])]"
    by (simp add: prepareInternalCommand_eq sudo_def heredoc_def)
  have int: "list_all (internalEv b) (snd (snd (prepareBuild x b w)))"
    by (rule prepareBuild_internal [of x b w "fst (prepareBuild x b w)"
          "fst (snd (prepareBuild x b w))"]) simp
  have 3: "\<exists>r. s = (if User (Target b) = ''root'' then [] else ''sudo '') @
               ''sh -x -e <<'' @ [CHR 0x22] @ ''EOC'' @ [CHR 0x22, CHR 0x0A] @ r @
               [CHR 0x0A] @ ''EOC'' @ [CHR 0x0A]"
    if "s \<in> set (sentTexts (snd (snd (prepareBuild x b w))))" for s
    using internal_sentTexts [OF int that] by (simp add: sudo_def heredoc_def)
  show ?thesis using 1 2 3 by (simp only: Run_sentTexts DryRun_sentTexts Un_absorb) blast
qed

theorem sudo_and_heredoc_witness:
  "\<forall>H. checkText \<in> set (sentTexts (snd (snd (Run (hostExtern H) brokenBuild 0))))
      \<and> (\<exists>r. checkText =
             ''sudo '' @ ''sh -x -e <<'' @ [CHR 0x22] @ ''EOC'' @ [CHR 0x22, CHR 0x0A] @ r @
             [CHR 0x0A] @ ''EOC'' @ [CHR 0x0A])"
proof (intro allI)
  fix H :: "string \<Rightarrow> string"
  let ?x = "hostExtern H" and ?b = "brokenBuild"
  have m: "checkText \<in> set (sentTexts (snd (snd (Run ?x ?b 0))))"
    by (simp add: driver_defs example_defs broken_defs string_defs sumEntry_def sumA_def)
  have u: "User (Target ?b) \<noteq> ''root''" by (simp add: broken_defs)
  from sudo_and_heredoc [of ?b "[]" 0 ?x] m u
  have "\<exists>r. checkText =
             ''sudo '' @ ''sh -x -e <<'' @ [CHR 0x22] @ ''EOC'' @ [CHR 0x22, CHR 0x0A] @ r @
             [CHR 0x0A] @ ''EOC'' @ [CHR 0x0A]"
    by (simp only: if_False Un_iff) blast
  with m show "checkText \<in> set (sentTexts (snd (snd (Run ?x ?b 0))))
      \<and> (\<exists>r. checkText =
             ''sudo '' @ ''sh -x -e <<'' @ [CHR 0x22] @ ''EOC'' @ [CHR 0x22, CHR 0x0A] @ r @
             [CHR 0x0A] @ ''EOC'' @ [CHR 0x0A])"
    by (rule conjI)
qed

section \<open>Environment variables\<close>

lemma foldl_env_prefix:
  "foldl (\<lambda>sCmd env. env @ '' '' @ sCmd) s envs = concat (map (\<lambda>env. env @ '' '') (rev envs)) @ s"
  by (induction envs arbitrary: s) simp_all

lemma concat_env_split:
  "env \<in> set envs \<Longrightarrow>
     \<exists>pre post. concat (map (\<lambda>env. env @ '' '') envs) = pre @ env @ '' '' @ post"
proof -
  assume "env \<in> set envs"
  then obtain xs ys where "envs = xs @ env # ys" by (auto simp: in_set_conv_decomp)
  then have "concat (map (\<lambda>env. env @ '' '') envs) =
      concat (map (\<lambda>env. env @ '' '') xs) @ env @ '' '' @ concat (map (\<lambda>env. env @ '' '') ys)"
    by simp
  then show ?thesis by blast
qed

text \<open>
  Claim C7. \<open>executeCommand\<close> builds the string it gives to the runner by putting each
  entry of \<open>Env\<close>, followed by a space, in front of \<open>Shell()\<close>; the last entry comes
  first. Every entry of \<open>Env\<close> stands in that string unchanged, before the command, and
  the same holds for the shell text of the runner that \<open>buildTask\<close> starts, as the spec
  describes it.
\<close>

theorem env_prefix:
  "executeCommand_sCmd c b = concat (map (\<lambda>env. env @ '' '') (rev (Env b))) @ Shell c
   \<and> snd (snd (executeCommand x c b d t w)) =
       [RunnerEv \<lparr>cmd = concat (map (\<lambda>env. env @ '' '') (rev (Env b))) @ Shell c,
                  remoteTaskRunner.command = c, dir = d, taskName = t, taskStarted = 0\<rparr>
          (fst (runner_run x b
                 \<lparr>cmd = concat (map (\<lambda>env. env @ '' '') (rev (Env b))) @ Shell c,
                  remoteTaskRunner.command = c, dir = d, taskName = t, taskStarted = 0\<rparr> w))]
   \<and> (\<forall>env \<in> set (Env b).
        (\<exists>pre post. executeCommand_sCmd c b = pre @ env @ '' '' @ post @ Shell c) \<and>
        (\<exists>pre post. runner_shellText b r =
           pre @ env @ '' '' @ post @ Shell (remoteTaskRunner.command r)))"
proof -
  have 1: "executeCommand_sCmd c b = concat (map (\<lambda>env. env @ '' '') (rev (Env b))) @ Shell c"
    using foldl_env_prefix [of "Shell c" "Env b"] by (simp add: executeCommand_sCmd_def)
  have 2: "snd (snd (executeCommand x c b d t w)) =
       [RunnerEv \<lparr>cmd = concat (map (\<lambda>env. env @ '' '') (rev (Env b))) @ Shell c,
                  remoteTaskRunner.command = c, dir = d, taskName = t, taskStarted = 0\<rparr>
          (fst (runner_run x b
                 \<lparr>cmd = concat (map (\<lambda>env. env @ '' '') (rev (Env b))) @ Shell c,
                  remoteTaskRunner.command = c, dir = d, taskName = t, taskStarted = 0\<rparr> w))]"
    by (simp add: executeCommand_def 1 Let_def split: prod.splits)
  have 3: "\<exists>pre post. executeCommand_sCmd c b = pre @ env @ '' '' @ post @ Shell c"
    if "env \<in> set (Env b)" for env
  proof -
    from that have "env \<in> set (rev (Env b))" by simp
    from concat_env_split [OF this] obtain pre post where
      "concat (map (\<lambda>env. env @ '' '') (rev (Env b))) = pre @ env @ '' '' @ post" by blast
    with 1 have "executeCommand_sCmd c b = pre @ env @ '' '' @ post @ Shell c" by simp
    then show ?thesis by blast
  qed
  have 4: "\<exists>pre post. runner_shellText b r =
           pre @ env @ '' '' @ post @ Shell (remoteTaskRunner.command r)"
    if "env \<in> set (Env b)" for env
  proof -
    from concat_env_split [OF that] obtain pre post where
      "concat (map (\<lambda>env. env @ '' '') (Env b)) = pre @ env @ '' '' @ post" by blast
    then have "runner_shellText b r =
      pre @ env @ '' '' @ (post @ (if User (Target b) = ''root'' then [] else ''sudo '')) @
      Shell (remoteTaskRunner.command r)"
      by (simp add: runner_shellText_def)
    then show ?thesis by blast
  qed
  show ?thesis using 1 2 3 4 by blast
qed

theorem env_prefix_witness:
  "\<forall>H. ''LC_ALL=C'' \<in> set (Env (exampleBuild H [] [''echo hello'']))
     \<and> executeCommand_sCmd \<lparr>Shell = ''echo hello'', Checksum = None\<rparr>
           (exampleBuild H [] [''echo hello'']) = ''LC_ALL=C echo hello''
     \<and> (\<exists>pre post.
           runner_shellText (exampleBuild H [] [''echo hello''])
             \<lparr>cmd = [], remoteTaskRunner.command = \<lparr>Shell = ''echo hello'', Checksum = None\<rparr>,
              dir = ''/var/lib/urknall/base'', taskName = ''base'', taskStarted = 0\<rparr> =
           pre @ ''LC_ALL=C'' @ '' '' @ post @ ''echo hello'')"
proof (intro allI)
  fix H :: "string \<Rightarrow> string"
  let ?b = "exampleBuild H [] [''echo hello'']"
  let ?c = "\<lparr>Shell = ''echo hello'', Checksum = None\<rparr>"
  let ?r = "\<lparr>cmd = [], remoteTaskRunner.command = ?c,
              dir = ''/var/lib/urknall/base'', taskName = ''base'', taskStarted = 0\<rparr>"
  have m: "''LC_ALL=C'' \<in> set (Env ?b)" by (simp add: exampleBuild_def)
  have e: "executeCommand_sCmd ?c ?b = ''LC_ALL=C echo hello''"
    by (simp add: executeCommand_sCmd_def exampleBuild_def)
  from env_prefix [where c = ?c and b = ?b and r = ?r] m
  have "\<exists>pre post. runner_shellText ?b ?r =
           pre @ ''LC_ALL=C'' @ '' '' @ post @ Shell (remoteTaskRunner.command ?r)"
    by blast
  then have "\<exists>pre post. runner_shellText ?b ?r = pre @ ''LC_ALL=C'' @ '' '' @ post @ ''echo hello''"
    by simp
  with m e show "''LC_ALL=C'' \<in> set (Env ?b)
     \<and> executeCommand_sCmd ?c ?b = ''LC_ALL=C echo hello''
     \<and> (\<exists>pre post. runner_shellText ?b ?r = pre @ ''LC_ALL=C'' @ '' '' @ post @ ''echo hello'')"
    by (intro conjI)
qed

section \<open>Adding to a runlist\<close>

text \<open>
  Claim C8. A shell command or a file command passed to \<open>Add\<close> by value is rejected:
  \<open>Add\<close> panics with the message that the type is not supported, and no runlist comes
  back, so nothing is stored. The same holds for a value of any other type that is no
  \<open>cmd.Command\<close>, such as a custom command struct passed by value.
\<close>

theorem Add_value_copy_rejected:
  "Add render rl (ShellCommandVal sc) = Inl (NotSupported ''cmd.ShellCommand'')
   \<and> Add render rl (FileCommandVal fc) = Inl (NotSupported ''cmd.FileCommand'')
   \<and> Add render rl (OtherVal n) = Inl (NotSupported n)"
  by (simp add: typeName_def)

text \<open>
  Claim C9. Adding the string \<open>s\<close> is adding, by reference, a new shell command whose
  \<open>Command\<close> is \<open>s\<close>. Where the template \<open>s\<close> renders against the package of the runlist,
  the entry appended is a pointer to a shell command whose \<open>Command\<close> is the rendered
  text; where it does not render, \<open>Add\<close> panics.
\<close>

theorem Add_string:
  "Add render rl (StringVal s) =
     Add render
       (rl\<lparr>shells := (shells rl)(nextAddr rl \<mapsto> \<lparr>ShellCommand.Command = s\<rparr>),
           nextAddr := Suc (nextAddr rl)\<rparr>)
       (ShellCommandPtr (nextAddr rl))
   \<and> (case render s (pkg rl) of
        Inl e \<Rightarrow> Add render rl (StringVal s) = Inl (RenderFailed e)
      | Inr s' \<Rightarrow>
          (\<exists>rl'. Add render rl (StringVal s) = Inr rl'
             \<and> Runlist.commands rl' = Runlist.commands rl @ [ShellCommandPtr (nextAddr rl)]
             \<and> shells rl' (nextAddr rl) = Some \<lparr>ShellCommand.Command = s'\<rparr>
             \<and> pkg rl' = pkg rl \<and> Runlist.name rl' = Runlist.name rl))"
  by (simp split: sum.splits)

section \<open>The hostname of the events\<close>

lemma buildCommands_published:
  "buildCommands x b t cs w = (res, w', evs) \<Longrightarrow>
     \<forall>m \<in> set (published evs). Hostname m = hostname b"
proof (induction cs arbitrary: w res w' evs)
  case Nil
  then show ?case by simp
next
  case (Cons c cs)
  then show ?case
    by (fastforce simp: taskMessage_def message_def split: if_splits prod.splits option.splits)
qed

lemma buildTasks_published:
  "buildTasks x b ts w = (res, w', evs) \<Longrightarrow>
     \<forall>m \<in> set (published evs). Hostname m = hostname b"
proof (induction ts arbitrary: w res w' evs)
  case Nil
  then show ?case by simp
next
  case (Cons t ts)
  then show ?case
    by (fastforce simp: buildTask_def published_append
        split: prod.splits option.splits dest: buildCommands_published)
qed

lemma dryRun_published:
  "\<forall>m \<in> set (published (concat (map (\<lambda>tsk. map (dryRunCommand b tsk) (commands tsk)) ts))).
     Hostname m = hostname b"
proof (induction ts)
  case Nil
  then show ?case by simp
next
  case (Cons t ts)
  have "\<forall>m \<in> set (published (map (dryRunCommand b t) cs)). Hostname m = hostname b" for cs
    by (induction cs) (auto simp: dryRunCommand_def taskMessage_def message_def)
  with Cons show ?case by (auto simp: published_append)
qed

text \<open>
  Claim C10. Every message that \<open>Run\<close> and \<open>DryRun\<close> publish carries the hostname
  \<open>MISSING\<close> when the target has no \<open>String()\<close> method, and the value of \<open>String()\<close>
  otherwise.
\<close>

theorem hostname_of_events:
  assumes "Run x b w = (r, w', evs) \<or> DryRun x b w = (r, w', evs)"
  shows "\<forall>m \<in> set (published evs).
           Hostname m = (case String (Target b) of None \<Rightarrow> ''MISSING'' | Some s \<Rightarrow> s)"
proof -
  have h: "hostname b = (case String (Target b) of None \<Rightarrow> ''MISSING'' | Some s \<Rightarrow> s)"
    by (simp add: hostname_def split: option.splits)
  have "\<forall>m \<in> set (published evs). Hostname m = hostname b"
    using assms
  proof
    assume run: "Run x b w = (r, w', evs)"
    obtain rp w1 evs1 where pb: "prepareBuild x b w = (rp, w1, evs1)"
      by (cases "prepareBuild x b w") auto
    have p1: "published evs1 = []"
      using pb by (rule internal_published [OF prepareBuild_internal])
    show ?thesis
    proof (cases rp)
      case (Inl e)
      with run pb p1 show ?thesis by (auto simp: Run_def)
    next
      case (Inr pk)
      obtain r2 w2 evs2 where bts: "buildTasks x b (tasks pk) w1 = (r2, w2, evs2)"
        by (cases "buildTasks x b (tasks pk) w1") auto
      from buildTasks_published [OF bts] run pb p1 Inr bts show ?thesis
        by (auto simp: Run_def published_append message_def split: option.splits)
    qed
  next
    assume dry: "DryRun x b w = (r, w', evs)"
    obtain rp w1 evs1 where pb: "prepareBuild x b w = (rp, w1, evs1)"
      by (cases "prepareBuild x b w") auto
    have p1: "published evs1 = []"
      using pb by (rule internal_published [OF prepareBuild_internal])
    show ?thesis
    proof (cases rp)
      case (Inl e)
      with dry pb p1 show ?thesis by (auto simp: DryRun_def)
    next
      case (Inr pk)
      with dry pb p1 dryRun_published [of b "tasks pk"] show ?thesis
        by (auto simp: DryRun_def published_append)
    qed
  qed
  with h show ?thesis by simp
qed

theorem hostname_of_events_witness:
  "\<forall>H. \<exists>r w' evs.
      Run (hostExtern H) (exampleBuild H [] [''echo hello'']) 0 = (r, w', evs)
      \<and> String (Target (exampleBuild H [] [''echo hello''])) = None
      \<and> length (published evs) = 4
      \<and> list_all (\<lambda>m. Hostname m = ''MISSING'') (published evs)"
proof (intro allI)
  fix H :: "string \<Rightarrow> string"
  let ?x = "hostExtern H" and ?b = "exampleBuild H [] [''echo hello'']"
  obtain r w' evs where run: "Run ?x ?b 0 = (r, w', evs)"
    by (cases "Run ?x ?b 0") auto
  have s: "String (Target ?b) = None" by (simp add: example_defs)
  have "length (published (snd (snd (Run ?x ?b 0)))) = 4"
    by (simp add: driver_defs example_defs string_defs)
  with run have n: "length (published evs) = 4" by simp
  from hostname_of_events [of ?x ?b 0 r w' evs] run s
  have h: "list_all (\<lambda>m. Hostname m = ''MISSING'') (published evs)"
    by (simp add: list_all_iff)
  show "\<exists>r w' evs.
      Run ?x ?b 0 = (r, w', evs)
      \<and> String (Target ?b) = None
      \<and> length (published evs) = 4
      \<and> list_all (\<lambda>m. Hostname m = ''MISSING'') (published evs)"
    by (rule exI [of _ r], rule exI [of _ w'], rule exI [of _ evs]) (intro conjI run s n h)
qed

end
